theory Spec2Isabelle
  imports Main "HOL-Library.Log_Nat"
begin

section \<open>Strings, characters and numbers of the Python program\<close>

text \<open>
  A Python \<open>str\<close> is a sequence of Unicode code points. It is modelled as a list of
  natural numbers, one per code point, because the program tests for code points beyond
  Latin-1 (U+200B, U+FEFF). \<open>u\<close> turns an ASCII literal into such a list.
\<close>

type_synonym ustr = "nat list"

definition u :: "string \<Rightarrow> ustr" where
  "u s = map of_char s"

text \<open>
  \<open>str.isspace\<close>, which is also the class \<open>\s\<close> of \<open>re\<close> on \<open>str\<close> patterns and what
  \<open>str.strip()\<close> removes.
\<close>

definition is_space :: "nat \<Rightarrow> bool" where
  "is_space c \<longleftrightarrow>
     (9 \<le> c \<and> c \<le> 13) \<or> (28 \<le> c \<and> c \<le> 32) \<or> c = 133 \<or> c = 160 \<or> c = 5760 \<or>
     (8192 \<le> c \<and> c \<le> 8202) \<or> c = 8232 \<or> c = 8233 \<or> c = 8239 \<or> c = 8287 \<or> c = 12288"

text \<open>
  The class \<open>\d\<close> of \<open>re\<close> on \<open>str\<close> patterns is the Unicode category Nd, and \<open>int()\<close>
  reads each such character as its decimal value. Nd consists of runs of ten consecutive
  code points for the digits 0 to 9; \<open>nd_zeros\<close> lists the code point of the zero of
  every run other than the ASCII one (Unicode 14, as in CPython 3.11).
\<close>

definition nd_zeros :: "nat list" where
  "nd_zeros = [1632, 1776, 1984, 2406, 2534, 2662, 2790, 2918, 3046, 3174, 3302, 3430,
     3558, 3664, 3792, 3872, 4160, 4240, 6112, 6160, 6470, 6608, 6784, 6800, 6992, 7088,
     7232, 7248, 42528, 43216, 43264, 43472, 43504, 43600, 44016, 65296, 66720, 68912,
     69734, 69872, 69942, 70096, 70384, 70736, 70864, 71248, 71360, 71472, 71904, 72016,
     72784, 73040, 73120, 92768, 92864, 93008, 120782, 120792, 120802, 120812, 120822,
     123200, 123632, 125264, 130032]"

definition digit_val :: "nat \<Rightarrow> nat option" where
  "digit_val c =
     (if 48 \<le> c \<and> c < 58 then Some (c - 48)
      else case filter (\<lambda>z. z \<le> c \<and> c < z + 10) nd_zeros of
             [] \<Rightarrow> None
           | z # _ \<Rightarrow> Some (c - z))"

definition is_digit :: "nat \<Rightarrow> bool" where
  "is_digit c \<longleftrightarrow> digit_val c \<noteq> None"

text \<open>\<open>str.strip()\<close> without arguments.\<close>

definition strip :: "ustr \<Rightarrow> ustr" where
  "strip s = rev (dropWhile is_space (rev (dropWhile is_space s)))"

text \<open>\<open>sep.join(parts)\<close>.\<close>

fun join :: "ustr \<Rightarrow> ustr list \<Rightarrow> ustr" where
  "join sep [] = []"
| "join sep [x] = x"
| "join sep (x # y # ys) = x @ sep @ join sep (y # ys)"

text \<open>\<open>s.split(sep)\<close> for a separator of one character.\<close>

fun split_on :: "nat \<Rightarrow> ustr \<Rightarrow> ustr list" where
  "split_on c [] = [[]]"
| "split_on c (x # xs) =
     (if x = c then [] # split_on c xs
      else case split_on c xs of
             [] \<Rightarrow> [[x]]
           | p # ps \<Rightarrow> (x # p) # ps)"

text \<open>The decimal digits of a natural number, as \<open>str(n)\<close> prints them.\<close>

fun dec :: "nat \<Rightarrow> ustr" where
  "dec n = (if n < 10 then [48 + n] else dec (n div 10) @ [48 + n mod 10])"

declare dec.simps [simp del]

text \<open>The format specification \<open>:02d\<close> of an f-string: sign, then zero padding to width 2.\<close>

definition fmt02d :: "int \<Rightarrow> ustr" where
  "fmt02d n =
     (if n < 0 then 45 # dec (nat (- n))
      else if n < 10 then 48 # dec (nat n)
      else dec (nat n))"

text \<open>
  \<open>int(s)\<close> on a \<open>str\<close> in base 10: surrounding whitespace, an optional sign, then
  decimal digits, where single underscores may separate digits. \<open>None\<close> is ValueError.
\<close>

fun int_digits :: "nat \<Rightarrow> ustr \<Rightarrow> nat option" where
  "int_digits acc [] = Some acc"
| "int_digits acc (c # cs) =
     (if c = 95 then
        (case cs of
           [] \<Rightarrow> None
         | d # ds \<Rightarrow> (case digit_val d of None \<Rightarrow> None
                      | Some v \<Rightarrow> int_digits (10 * acc + v) ds))
      else case digit_val c of None \<Rightarrow> None
           | Some v \<Rightarrow> int_digits (10 * acc + v) cs)"

definition py_int_str :: "ustr \<Rightarrow> int option" where
  "py_int_str s =
     (let t = strip s;
          (neg, body) = (case t of
                           c # cs \<Rightarrow> if c = 45 then (True, cs)
                                     else if c = 43 then (False, cs) else (False, t)
                         | [] \<Rightarrow> (False, t))
      in case body of
           [] \<Rightarrow> None
         | d # ds \<Rightarrow>
             (case digit_val d of
                None \<Rightarrow> None
              | Some v \<Rightarrow>
                  (case int_digits v ds of
                     None \<Rightarrow> None
                   | Some n \<Rightarrow> Some (if neg then - int n else int n))))"

text \<open>
  A Python \<open>float\<close>: the exact rational value of a finite double, or one of the three
  special values.
\<close>

datatype pyfloat = Fin rat | PInf | NInf | NaN

datatype exc = ValueError | TypeError | OverflowError | AttributeError | KeyError | OSError

text \<open>
  \<open>float(n)\<close> for an \<open>int\<close>: exact below \<open>2^53\<close>, otherwise rounded to 53 significant
  bits, ties to even; OverflowError when the rounded value does not fit a double.
\<close>

definition float_of_int :: "int \<Rightarrow> exc + pyfloat" where
  "float_of_int n =
     (let a = \<bar>n\<bar> in
      if a < 2 ^ 53 then Inr (Fin (of_int n))
      else
        let k = nat (bitlen a) - 53;
            m = a div 2 ^ k;
            r = a mod 2 ^ k;
            h = 2 ^ (k - 1);
            m' = (if r > h \<or> (r = h \<and> odd m) then m + 1 else m);
            v = m' * 2 ^ k
        in if v \<ge> 2 ^ 1024 then Inl OverflowError
           else Inr (Fin (of_int (sgn n * v))))"

text \<open>\<open>int(x)\<close> for a \<open>float\<close>: truncation towards zero; infinities and NaN raise.\<close>

definition int_of_float :: "pyfloat \<Rightarrow> exc + int" where
  "int_of_float x =
     (case x of
        Fin q \<Rightarrow> Inr (if q < 0 then - \<lfloor>- q\<rfloor> else \<lfloor>q\<rfloor>)
      | PInf \<Rightarrow> Inl OverflowError
      | NInf \<Rightarrow> Inl OverflowError
      | NaN \<Rightarrow> Inl ValueError)"

section \<open>Time codec\<close>

text \<open>A caption offset is a number: an \<open>int\<close> or a \<open>float\<close>.\<close>

datatype pynum = PInt int | PFloat pyfloat

definition float_of_num :: "pynum \<Rightarrow> exc + pyfloat" where
  "float_of_num x = (case x of PInt n \<Rightarrow> float_of_int n | PFloat f \<Rightarrow> Inr f)"

text \<open>
  \<open>format_time\<close>: any exception inside the \<open>try\<close> gives the literal \<open>[00:00:00]\<close>.
\<close>

definition format_time :: "pynum \<Rightarrow> ustr" where
  "format_time seconds =
     (case float_of_num seconds of
        Inl e \<Rightarrow> u ''[00:00:00]''
      | Inr f \<Rightarrow>
          (case int_of_float f of
             Inl e \<Rightarrow> u ''[00:00:00]''
           | Inr total_seconds \<Rightarrow>
               (let hours = total_seconds div 3600;
                    minutes = (total_seconds mod 3600) div 60;
                    secs = total_seconds mod 60
                in [91] @ fmt02d hours @ [58] @ fmt02d minutes @ [58] @ fmt02d secs @ [93])))"

text \<open>
  The nested \<open>time_to_seconds\<close> (the same text in \<open>filter_subtitles_by_time\<close> and in
  \<open>extract_segments\<close>): split at colons, exactly three parts, each read by \<open>int\<close>.
\<close>

definition time_to_seconds :: "ustr \<Rightarrow> int option" where
  "time_to_seconds time_str =
     (case map py_int_str (split_on 58 time_str) of
        [Some h, Some m, Some s] \<Rightarrow> Some (h * 3600 + m * 60 + s)
      | _ \<Rightarrow> None)"

text \<open>
  The pattern \<open>^(\d{1,2}):?(\d{2}):?(\d{2})$\<close> under \<open>match\<close>. The greedy \<open>\d{1,2}\<close>
  tries two digits before one; \<open>:?\<close> takes a colon when there is one (leaving it would
  fail at the next \<open>\d\<close>); \<open>$\<close> accepts the end of the string, or a final newline.
\<close>

definition opt_colon :: "ustr \<Rightarrow> ustr" where
  "opt_colon s = (case s of c # cs \<Rightarrow> if c = 58 then cs else s | [] \<Rightarrow> s)"

definition two_digits :: "ustr \<Rightarrow> (ustr \<times> ustr) option" where
  "two_digits s =
     (case s of
        a # b # rest \<Rightarrow> if is_digit a \<and> is_digit b then Some ([a, b], rest) else None
      | _ \<Rightarrow> None)"

definition at_end :: "ustr \<Rightarrow> bool" where
  "at_end s \<longleftrightarrow> s = [] \<or> s = [10]"

definition match_tail :: "ustr \<Rightarrow> (ustr \<times> ustr) option" where
  "match_tail s =
     (case two_digits (opt_colon s) of
        None \<Rightarrow> None
      | Some (g2, r2) \<Rightarrow>
          (case two_digits (opt_colon r2) of
             None \<Rightarrow> None
           | Some (g3, r3) \<Rightarrow> if at_end r3 then Some (g2, g3) else None))"

definition time_pattern_match :: "ustr \<Rightarrow> (ustr \<times> ustr \<times> ustr) option" where
  "time_pattern_match s =
     (case (case two_digits s of
              None \<Rightarrow> None
            | Some (g1, r1) \<Rightarrow>
                (case match_tail r1 of None \<Rightarrow> None | Some (g2, g3) \<Rightarrow> Some (g1, g2, g3))) of
        Some m \<Rightarrow> Some m
      | None \<Rightarrow>
          (case s of
             a # r1 \<Rightarrow>
               if is_digit a then
                 (case match_tail r1 of None \<Rightarrow> None | Some (g2, g3) \<Rightarrow> Some ([a], g2, g3))
               else None
           | [] \<Rightarrow> None))"

text \<open>
  Lines 400 to 423 of \<open>extract_segments\<close> for one timecode: strip, match, render the
  hour with two digits, convert to seconds. The result is the normalised text and the
  seconds; \<open>None\<close> is "no match" (or an exception), which skips the segment.
\<close>

definition parse_timecode :: "ustr \<Rightarrow> (ustr \<times> int) option" where
  "parse_timecode raw =
     (case time_pattern_match (strip raw) of
        None \<Rightarrow> None
      | Some (g1, g2, g3) \<Rightarrow>
          (case py_int_str g1 of
             None \<Rightarrow> None
           | Some h \<Rightarrow>
               (let t = fmt02d h @ [58] @ g2 @ [58] @ g3
                in case time_to_seconds t of
                     None \<Rightarrow> None
                   | Some secs \<Rightarrow> Some (t, secs))))"

text \<open>
  \<open>strip_brackets\<close> is the specification's name for removing the enclosing brackets of
  a formatted time; the program has no function of that name.
\<close>

definition strip_brackets :: "ustr \<Rightarrow> ustr" where
  "strip_brackets s =
     (case s of
        c # cs \<Rightarrow> if c = 91 \<and> cs \<noteq> [] \<and> last cs = 93 then butlast cs else s
      | [] \<Rightarrow> s)"

section \<open>Transcript normalizer\<close>

text \<open>
  \<open>re.sub(r'<[^>]+>', '', text)\<close>: scanning from the left, a \<open><\<close> followed by at least one
  character other than \<open>>\<close> and then by a \<open>>\<close> is removed up to and including the first
  such \<open>>\<close>; every other character is kept.
\<close>

function strip_tags :: "ustr \<Rightarrow> ustr" where
  "strip_tags [] = []"
| "strip_tags (c # cs) =
     (if c = 60 \<and> takeWhile (\<lambda>x. x \<noteq> 62) cs \<noteq> [] \<and> dropWhile (\<lambda>x. x \<noteq> 62) cs \<noteq> []
      then strip_tags (tl (dropWhile (\<lambda>x. x \<noteq> 62) cs))
      else c # strip_tags cs)"
  by pat_completeness auto
termination
proof (relation "measure length")
  fix c :: nat and cs :: ustr
  have "length (tl (dropWhile (\<lambda>x. x \<noteq> 62) cs)) \<le> length (dropWhile (\<lambda>x. x \<noteq> 62) cs)"
    by simp
  also have "\<dots> \<le> length cs" by (rule length_dropWhile_le)
  finally show "(tl (dropWhile (\<lambda>x. x \<noteq> 62) cs), c # cs) \<in> measure length" by simp
qed simp_all

text \<open>\<open>re.sub(r'\s+', ' ', text)\<close>: every maximal run of whitespace becomes one space.\<close>

function collapse_ws :: "ustr \<Rightarrow> ustr" where
  "collapse_ws [] = []"
| "collapse_ws (c # cs) =
     (if is_space c then 32 # collapse_ws (dropWhile is_space cs) else c # collapse_ws cs)"
  by pat_completeness auto
termination
proof (relation "measure length")
  fix c :: nat and cs :: ustr
  have "length (dropWhile is_space cs) \<le> length cs" by (rule length_dropWhile_le)
  then show "(dropWhile is_space cs, c # cs) \<in> measure length" by simp
qed simp_all

text \<open>\<open>text.replace('\u200b', '').replace('\ufeff', '')\<close>.\<close>

definition remove_zero_width :: "ustr \<Rightarrow> ustr" where
  "remove_zero_width s = filter (\<lambda>c. c \<noteq> 65279) (filter (\<lambda>c. c \<noteq> 8203) s)"

text \<open>
  \<open>clean_text\<close> on a \<open>str\<close>. The four steps cannot raise on a \<open>str\<close>, so the \<open>except\<close>
  branch (which returns the argument unchanged) is not reached for the caption texts
  modelled here.
\<close>

definition clean_text :: "ustr \<Rightarrow> ustr" where
  "clean_text s = strip (remove_zero_width (collapse_ws (strip_tags s)))"

text \<open>
  A raw caption item of the transcript API: a start offset and a text. An output line
  \<open>f"{time} {text}"\<close> is kept as the pair of its two parts; \<open>render_line\<close> is the string.
\<close>

record caption_item =
  item_start :: pynum
  item_text :: ustr

type_synonym timed_line = "ustr \<times> ustr"

definition render_line :: "timed_line \<Rightarrow> ustr" where
  "render_line l = fst l @ [32] @ snd l"

text \<open>
  \<open>if current_time and current_text: formatted_subtitles.append(...)\<close>: a pending group
  is appended when its time is neither \<open>None\<close> nor empty and it has texts.
\<close>

definition flush :: "ustr option \<Rightarrow> ustr list \<Rightarrow> timed_line list \<Rightarrow> timed_line list" where
  "flush current_time current_text formatted =
     (case current_time of
        None \<Rightarrow> formatted
      | Some t \<Rightarrow> if t \<noteq> [] \<and> current_text \<noteq> []
                  then formatted @ [(t, join [32] current_text)] else formatted)"

text \<open>The loop of lines 175 to 192 (transcript API source), with its three variables.\<close>

fun merge_loop ::
  "caption_item list \<Rightarrow> ustr option \<Rightarrow> ustr list \<Rightarrow> timed_line list \<Rightarrow> timed_line list" where
  "merge_loop [] current_time current_text formatted =
     flush current_time current_text formatted"
| "merge_loop (item # rest) current_time current_text formatted =
     (let time = format_time (item_start item);
          txt = clean_text (item_text item)
      in if txt = [] then merge_loop rest current_time current_text formatted
         else if current_time = Some time
              then merge_loop rest current_time (current_text @ [txt]) formatted
              else merge_loop rest (Some time) [txt]
                     (flush current_time current_text formatted))"

definition normalize_api :: "caption_item list \<Rightarrow> timed_line list" where
  "normalize_api transcript = merge_loop transcript None [] []"

text \<open>
  The loop of lines 205 to 210 (caption-extraction source): \<open>item.get('start', 0)\<close> and
  \<open>item.get('text', '')\<close>, one line per item with non-empty cleaned text.
\<close>

record track_item =
  track_start :: "pynum option"
  track_text :: "ustr option"

definition normalize_ytdlp :: "track_item list \<Rightarrow> timed_line list" where
  "normalize_ytdlp transcript =
     concat (map (\<lambda>item.
        let time = format_time (case track_start item of None \<Rightarrow> PInt 0 | Some s \<Rightarrow> s);
            txt = clean_text (case track_text item of None \<Rightarrow> [] | Some t \<Rightarrow> t)
        in if txt \<noteq> [] then [(time, txt)] else []) transcript)"

section \<open>Values of the model reply and score normalization\<close>

text \<open>
  What \<open>json.loads\<close> returns. A \<open>dict\<close> is an association list read with \<open>map_of\<close>.
\<close>

datatype json = JNull | JBool bool | JInt int | JFloat pyfloat | JStr ustr
  | JArr "json list" | JObj "(ustr \<times> json) list"

text \<open>
  \<open>float(v)\<close>. On a \<open>str\<close> it is Python's parser of float literals, taken as the
  parameter \<open>sf\<close> (\<open>None\<close> is ValueError); \<open>None\<close>, lists and dicts raise TypeError.
\<close>

definition py_float :: "(ustr \<Rightarrow> pyfloat option) \<Rightarrow> json \<Rightarrow> exc + pyfloat" where
  "py_float sf v =
     (case v of
        JNull \<Rightarrow> Inl TypeError
      | JBool b \<Rightarrow> Inr (Fin (if b then 1 else 0))
      | JInt n \<Rightarrow> float_of_int n
      | JFloat f \<Rightarrow> Inr f
      | JStr s \<Rightarrow> (case sf s of None \<Rightarrow> Inl ValueError | Some f \<Rightarrow> Inr f)
      | JArr xs \<Rightarrow> Inl TypeError
      | JObj kv \<Rightarrow> Inl TypeError)"

text \<open>
  \<open>if not (1 <= score <= 10): score = max(1, min(10, score))\<close>. Comparisons with NaN are
  false, so \<open>min(10, nan)\<close> is \<open>10\<close>.
\<close>

definition clamp_score :: "pyfloat \<Rightarrow> rat" where
  "clamp_score x =
     (case x of
        Fin q \<Rightarrow> if 1 \<le> q \<and> q \<le> 10 then q else max 1 (min 10 q)
      | PInf \<Rightarrow> 10
      | NInf \<Rightarrow> 1
      | NaN \<Rightarrow> 10)"

text \<open>\<open>round(x)\<close> without digits: the nearest integer, a tie going to the even one.\<close>

definition py_round :: "rat \<Rightarrow> int" where
  "py_round q =
     (let f = \<lfloor>q\<rfloor>; d = q - of_int f
      in if d < 1 / 2 then f
         else if 1 / 2 < d then f + 1
         else if even f then f else f + 1)"

text \<open>
  The body of the loop over \<open>score_fields\<close> for one value: ValueError and TypeError give
  5; any other exception leaves the loop (\<open>Inl\<close>).
\<close>

definition normalize_score :: "(ustr \<Rightarrow> pyfloat option) \<Rightarrow> json \<Rightarrow> exc + int" where
  "normalize_score sf v =
     (case py_float sf v of
        Inr score \<Rightarrow> Inr (py_round (clamp_score score))
      | Inl e \<Rightarrow> if e = ValueError \<or> e = TypeError then Inr 5 else Inl e)"

section \<open>Video identifier\<close>

text \<open>
  \<open>urlparse\<close> and \<open>parse_qs\<close> belong to the standard library and are parameters: what
  they return for a string, or that they raise. A parsed URL is read through
  \<open>hostname\<close>, \<open>path\<close> and \<open>query\<close>.
\<close>

record parsed_url =
  hostname :: "ustr option"
  path :: ustr
  query :: ustr

definition startswith :: "ustr \<Rightarrow> ustr \<Rightarrow> bool" where
  "startswith s p \<longleftrightarrow> take (length p) s = p"

definition extract_video_id ::
  "(ustr \<Rightarrow> exc + parsed_url) \<Rightarrow> (ustr \<Rightarrow> exc + (ustr \<times> ustr list) list) \<Rightarrow> ustr \<Rightarrow> ustr option" where
  "extract_video_id urlparse parse_qs url =
     (case urlparse url of
        Inl e \<Rightarrow> None
      | Inr parsed \<Rightarrow>
          if hostname parsed = Some (u ''www.youtube.com'') \<or> hostname parsed = Some (u ''youtube.com'')
          then
            if path parsed = u ''/watch'' then
              (case parse_qs (query parsed) of
                 Inl e \<Rightarrow> None
               | Inr d \<Rightarrow>
                   (case map_of d (u ''v'') of
                      None \<Rightarrow> None
                    | Some vs \<Rightarrow> (case vs of [] \<Rightarrow> None | v # _ \<Rightarrow> Some v)))
            else if startswith (path parsed) (u ''/live/'') \<or> startswith (path parsed) (u ''/shorts/'')
            then Some (last (split_on 47 (path parsed)))
            else None
          else if hostname parsed = Some (u ''youtu.be'') then Some (drop 1 (path parsed))
          else None)"

section \<open>Subtitle excerpts\<close>

text \<open>
  \<open>re.match(r'\[(\d{2}):(\d{2}):(\d{2})\](.*)', line)\<close> looks at the first ten characters
  only; the result is the text \<open>f"{h}:{m}:{s}"\<close> given to \<open>time_to_seconds\<close>.
\<close>

definition line_match :: "ustr \<Rightarrow> ustr option" where
  "line_match line =
     (if 10 \<le> length line \<and> line ! 0 = 91 \<and> is_digit (line ! 1) \<and> is_digit (line ! 2) \<and>
         line ! 3 = 58 \<and> is_digit (line ! 4) \<and> is_digit (line ! 5) \<and> line ! 6 = 58 \<and>
         is_digit (line ! 7) \<and> is_digit (line ! 8) \<and> line ! 9 = 93
      then Some ([line ! 1, line ! 2] @ [58] @ [line ! 4, line ! 5] @ [58] @ [line ! 7, line ! 8])
      else None)"

text \<open>The \<open>for\<close> loop of \<open>filter_subtitles_by_time\<close>; \<open>None\<close> is an exception.\<close>

fun filter_loop :: "ustr list \<Rightarrow> int \<Rightarrow> int \<Rightarrow> ustr list \<Rightarrow> ustr list option" where
  "filter_loop [] start_seconds end_seconds filtered = Some filtered"
| "filter_loop (line # rest) start_seconds end_seconds filtered =
     (if strip line = [] then filter_loop rest start_seconds end_seconds filtered
      else case line_match line of
             None \<Rightarrow> filter_loop rest start_seconds end_seconds filtered
           | Some t \<Rightarrow>
               (case time_to_seconds t of
                  None \<Rightarrow> None
                | Some subtitle_seconds \<Rightarrow>
                    if start_seconds \<le> subtitle_seconds \<and> subtitle_seconds \<le> end_seconds
                    then filter_loop rest start_seconds end_seconds (filtered @ [line])
                    else filter_loop rest start_seconds end_seconds filtered))"

text \<open>\<open>filter_subtitles_by_time\<close>: any exception gives the empty list.\<close>

definition filter_subtitles_by_time :: "ustr list \<Rightarrow> ustr \<Rightarrow> ustr \<Rightarrow> ustr list" where
  "filter_subtitles_by_time subtitles start_time end_time =
     (case time_to_seconds start_time of
        None \<Rightarrow> []
      | Some start_seconds \<Rightarrow>
          (case time_to_seconds end_time of
             None \<Rightarrow> []
           | Some end_seconds \<Rightarrow>
               (case filter_loop subtitles start_seconds end_seconds [] of
                  None \<Rightarrow> []
                | Some filtered \<Rightarrow> filtered)))"

section \<open>Clip extraction\<close>

text \<open>\<open>str.splitlines()\<close>: the line boundaries of \<open>str\<close>, \<open>\r\n\<close> counting as one.\<close>

definition is_linebreak :: "nat \<Rightarrow> bool" where
  "is_linebreak c \<longleftrightarrow> c \<in> {10, 11, 12, 13, 28, 29, 30, 133, 8232, 8233}"

fun splitlines_from :: "ustr \<Rightarrow> ustr \<Rightarrow> ustr list" where
  "splitlines_from cur [] = (if cur = [] then [] else [cur])"
| "splitlines_from cur [c] = (if is_linebreak c then [cur] else [cur @ [c]])"
| "splitlines_from cur (c # d # cs) =
     (if c = 13 \<and> d = 10 then cur # splitlines_from [] cs
      else if is_linebreak c then cur # splitlines_from [] (d # cs)
      else splitlines_from (cur @ [c]) (d # cs))"

definition splitlines :: "ustr \<Rightarrow> ustr list" where
  "splitlines s = splitlines_from [] s"

text \<open>\<open>s.replace(old, '')\<close> for a non-empty \<open>old\<close>, and \<open>os.path.basename\<close>.\<close>

function remove_sub :: "ustr \<Rightarrow> ustr \<Rightarrow> ustr" where
  "remove_sub old [] = []"
| "remove_sub old (c # cs) =
     (if old \<noteq> [] \<and> startswith (c # cs) old
      then remove_sub old (drop (length old) (c # cs))
      else c # remove_sub old cs)"
  by pat_completeness auto
termination
  by (relation "measure (\<lambda>(old, s). length s)") auto

definition basename :: "ustr \<Rightarrow> ustr" where
  "basename p = last (split_on 47 p)"

definition downloads :: "ustr \<Rightarrow> ustr" where
  "downloads name = u ''downloads/'' @ name"

definition colon_to_underscore :: "ustr \<Rightarrow> ustr" where
  "colon_to_underscore s = map (\<lambda>c. if c = 58 then 95 else c) s"

text \<open>
  The file system is a map from paths to contents; a text file holds the string that
  was written. The external commands are recorded in a log of events.
\<close>

datatype content = Text ustr | Media

type_synonym files = "ustr \<Rightarrow> content option"

record trim_cmd =
  cmd_input :: ustr
  cmd_ss :: int
  cmd_t :: int
  cmd_output :: ustr

datatype ev = EvDownload ustr | EvWrite ustr | EvTrim trim_cmd | EvUnlink ustr

text \<open>
  What the program does not decide itself: the standard library's \<open>urlparse\<close>,
  \<open>parse_qs\<close>, \<open>float\<close> on a \<open>str\<close> and \<open>str\<close> on a value that is not a \<open>str\<close>; the
  download (whether it returns, and whether the file is there afterwards); the exit
  status of the trim command (\<open>None\<close> when \<open>subprocess.run\<close> raises); whether a file can
  be opened for writing. Progress notifications are not modelled.
\<close>

record env =
  e_urlparse :: "ustr \<Rightarrow> exc + parsed_url"
  e_parse_qs :: "ustr \<Rightarrow> exc + (ustr \<times> ustr list) list"
  e_str_float :: "ustr \<Rightarrow> pyfloat option"
  e_py_str :: "json \<Rightarrow> ustr"
  e_download :: "ustr \<Rightarrow> bool \<times> bool"
  e_trim :: "trim_cmd \<Rightarrow> int option"
  e_write_ok :: "ustr \<Rightarrow> bool"

text \<open>The dictionaries appended to \<open>results\<close>.\<close>

record clip =
  start_time :: ustr
  end_time :: ustr
  video_title :: ustr
  subtitle_file :: ustr
  video_file :: ustr
  title :: json
  impact :: int
  uniqueness :: int
  timeliness :: int
  entertainment :: int
  reason :: ustr

definition required_fields :: "ustr list" where
  "required_fields = [u ''start'', u ''end'', u ''impact'', u ''uniqueness'', u ''timeliness'',
     u ''entertainment'', u ''reason'']"

definition contains :: "ustr \<Rightarrow> ustr \<Rightarrow> bool" where
  "contains s sub \<longleftrightarrow> list_ex (\<lambda>i. startswith (drop i s) sub) [0 ..< Suc (length s)]"

text \<open>
  \<open>field in segment\<close>: a key of a dict, an element of a list, a substring of a \<open>str\<close>;
  TypeError on a value that is not iterable.
\<close>

definition field_in :: "ustr \<Rightarrow> json \<Rightarrow> exc + bool" where
  "field_in field segment =
     (case segment of
        JObj kv \<Rightarrow> Inr (map_of kv field \<noteq> None)
      | JArr xs \<Rightarrow> Inr (JStr field \<in> set xs)
      | JStr s \<Rightarrow> Inr (contains s field)
      | _ \<Rightarrow> Inl TypeError)"

fun all_in :: "ustr list \<Rightarrow> json \<Rightarrow> exc + bool" where
  "all_in [] segment = Inr True"
| "all_in (f # fs) segment =
     (case field_in f segment of
        Inl e \<Rightarrow> Inl e
      | Inr b \<Rightarrow> if b then all_in fs segment else Inr False)"

text \<open>\<open>segment[field]\<close> with a \<open>str\<close> key.\<close>

definition subscript :: "json \<Rightarrow> ustr \<Rightarrow> exc + json" where
  "subscript segment field =
     (case segment of
        JObj kv \<Rightarrow> (case map_of kv field of None \<Rightarrow> Inl KeyError | Some v \<Rightarrow> Inr v)
      | _ \<Rightarrow> Inl TypeError)"

text \<open>
  One round of the loop over \<open>score_fields\<close>. When \<open>segment[field]\<close> itself raises
  TypeError, the handler's log message evaluates \<open>segment[field]\<close> again and raises out
  of the handler, so that error is not turned into 5.
\<close>

definition score_of :: "(ustr \<Rightarrow> pyfloat option) \<Rightarrow> json \<Rightarrow> ustr \<Rightarrow> exc + int" where
  "score_of sf segment field =
     (case subscript segment field of
        Inl e \<Rightarrow> Inl e
      | Inr v \<Rightarrow> normalize_score sf v)"

definition normalized_scores ::
  "(ustr \<Rightarrow> pyfloat option) \<Rightarrow> json \<Rightarrow> exc + (int \<times> int \<times> int \<times> int)" where
  "normalized_scores sf segment =
     (case score_of sf segment (u ''impact'') of
        Inl e \<Rightarrow> Inl e
      | Inr a \<Rightarrow>
     (case score_of sf segment (u ''uniqueness'') of
        Inl e \<Rightarrow> Inl e
      | Inr b \<Rightarrow>
     (case score_of sf segment (u ''timeliness'') of
        Inl e \<Rightarrow> Inl e
      | Inr c \<Rightarrow>
     (case score_of sf segment (u ''entertainment'') of
        Inl e \<Rightarrow> Inl e
      | Inr d \<Rightarrow> Inr (a, b, c, d)))))"

text \<open>\<open>segment[field].strip()\<close> exists for a \<open>str\<close> only; the strip is in \<open>parse_timecode\<close>.\<close>

definition str_field :: "json \<Rightarrow> ustr \<Rightarrow> exc + ustr" where
  "str_field segment field =
     (case subscript segment field of
        Inl e \<Rightarrow> Inl e
      | Inr v \<Rightarrow> (case v of JStr s \<Rightarrow> Inr s | _ \<Rightarrow> Inl AttributeError))"

definition py_str :: "(json \<Rightarrow> ustr) \<Rightarrow> json \<Rightarrow> ustr" where
  "py_str ps v = (case v of JStr s \<Rightarrow> s | _ \<Rightarrow> ps v)"

text \<open>The default title \<open>f'... {len(results) + 1}'\<close> and the fallback reason.\<close>

definition default_title :: "nat \<Rightarrow> ustr" where
  "default_title n = [20999, 12426, 25244, 12365, 32] @ dec (n + 1)"

definition fallback_reason :: ustr where
  "fallback_reason = [29702, 30001, 12364, 21313, 20998, 12395, 35500, 26126, 12373, 12428,
     12390, 12356, 12414, 12379, 12435, 12290]"

text \<open>\<open>segment.get('title', default)\<close> and the reason of a record.\<close>

definition get_title :: "json \<Rightarrow> nat \<Rightarrow> exc + json" where
  "get_title segment n =
     (case segment of
        JObj kv \<Rightarrow> (case map_of kv (u ''title'') of
                     None \<Rightarrow> Inr (JStr (default_title n))
                   | Some v \<Rightarrow> Inr v)
      | _ \<Rightarrow> Inl AttributeError)"

definition reason_text :: "(json \<Rightarrow> ustr) \<Rightarrow> json \<Rightarrow> ustr" where
  "reason_text ps v =
     (if 10 \<le> length (strip (py_str ps v)) then strip (py_str ps v) else fallback_reason)"

text \<open>
  The body of the loop over \<open>segments\<close> for one element. The result is the record
  appended to \<open>results\<close> (\<open>None\<close> when the element is skipped by a \<open>continue\<close> or by one
  of the two \<open>except Exception\<close> handlers), the file system and the events. The trim
  command is taken to create its output file exactly when it exits with status 0.
  \<open>clip_stem\<close> is the common part of the two file names of a segment.
\<close>

definition clip_stem :: "ustr \<Rightarrow> ustr \<Rightarrow> ustr \<Rightarrow> ustr" where
  "clip_stem video_id start_t end_t =
     u ''clip_'' @ video_id @ u ''_'' @ colon_to_underscore start_t @ u ''_'' @
     colon_to_underscore end_t"

definition process_segment ::
  "env \<Rightarrow> ustr \<Rightarrow> ustr \<Rightarrow> ustr list \<Rightarrow> ustr \<Rightarrow> nat \<Rightarrow> json \<Rightarrow> files \<Rightarrow>
   clip option \<times> files \<times> ev list" where
  "process_segment env video_id subtitle_path all_subtitles temp_path n segment fls =
     (case all_in required_fields segment of
        Inl e \<Rightarrow> (None, fls, [])
      | Inr present \<Rightarrow>
     if \<not> present then (None, fls, [])
     else
     (case normalized_scores (e_str_float env) segment of
        Inl e \<Rightarrow> (None, fls, [])
      | Inr (s_impact, s_uniqueness, s_timeliness, s_entertainment) \<Rightarrow>
     (case str_field segment (u ''start'') of
        Inl e \<Rightarrow> (None, fls, [])
      | Inr raw_start \<Rightarrow>
     (case str_field segment (u ''end'') of
        Inl e \<Rightarrow> (None, fls, [])
      | Inr raw_end \<Rightarrow>
     (case parse_timecode raw_start of
        None \<Rightarrow> (None, fls, [])
      | Some (start_t, start_seconds) \<Rightarrow>
     (case parse_timecode raw_end of
        None \<Rightarrow> (None, fls, [])
      | Some (end_t, end_seconds) \<Rightarrow>
     (let duration = end_seconds - start_seconds;
          segment_subtitles = filter_subtitles_by_time all_subtitles start_t end_t;
          segment_subtitle_path =
            downloads (clip_stem video_id start_t end_t @ u ''_subtitles.txt'');
          output_path = downloads (clip_stem video_id start_t end_t @ u ''.mp4'')
      in if \<not> e_write_ok env segment_subtitle_path then (None, fls, [])
         else
           (let fls1 = fls(segment_subtitle_path \<mapsto> Text (join [10] segment_subtitles));
                cmd = \<lparr>cmd_input = temp_path, cmd_ss = start_seconds, cmd_t = duration,
                       cmd_output = output_path\<rparr>;
                evs = [EvWrite segment_subtitle_path, EvTrim cmd]
            in case e_trim env cmd of
                 None \<Rightarrow> (None, fls1, evs)
               | Some returncode \<Rightarrow>
                   if returncode \<noteq> 0 then (None, fls1, evs)
                   else
                     (case get_title segment n of
                        Inl e \<Rightarrow> (None, fls1(output_path \<mapsto> Media), evs)
                      | Inr ttl \<Rightarrow>
                     (case subscript segment (u ''reason'') of
                        Inl e \<Rightarrow> (None, fls1(output_path \<mapsto> Media), evs)
                      | Inr rsn \<Rightarrow>
                          (Some \<lparr>start_time = start_t, end_time = end_t,
                                 video_title =
                                   remove_sub (u ''_subtitles.txt'') (basename subtitle_path),
                                 subtitle_file = segment_subtitle_path,
                                 video_file = output_path,
                                 title = ttl,
                                 impact = s_impact, uniqueness = s_uniqueness,
                                 timeliness = s_timeliness, entertainment = s_entertainment,
                                 reason = reason_text (e_py_str env) rsn\<rparr>,
                           fls1(output_path \<mapsto> Media), evs)))))))))))"

text \<open>The loop over \<open>segments\<close>, in array order, with \<open>results\<close>, the files and the trace.\<close>

fun run_segments ::
  "env \<Rightarrow> ustr \<Rightarrow> ustr \<Rightarrow> ustr list \<Rightarrow> ustr \<Rightarrow> json list \<Rightarrow> clip list \<Rightarrow> files \<Rightarrow> ev list \<Rightarrow>
   clip list \<times> files \<times> ev list" where
  "run_segments env video_id subtitle_path all_subtitles temp_path [] results fls trace =
     (results, fls, trace)"
| "run_segments env video_id subtitle_path all_subtitles temp_path (segment # rest) results fls trace =
     (case process_segment env video_id subtitle_path all_subtitles temp_path (length results)
             segment fls of
        (r, fls', evs) \<Rightarrow>
          run_segments env video_id subtitle_path all_subtitles temp_path rest
            (case r of None \<Rightarrow> results | Some c \<Rightarrow> results @ [c]) fls' (trace @ evs))"

definition temp_file :: "ustr \<Rightarrow> ustr" where
  "temp_file video_id = downloads (u ''temp_'' @ video_id @ u ''.mp4'')"

text \<open>\<open>if temp_path.exists(): temp_path.unlink()\<close>.\<close>

definition unlink_if_exists :: "ustr \<Rightarrow> files \<times> ev list \<Rightarrow> files \<times> ev list" where
  "unlink_if_exists p st =
     (case st of (fls, trace) \<Rightarrow>
        if fls p \<noteq> None then (fls(p := None), trace @ [EvUnlink p]) else (fls, trace))"

text \<open>
  \<open>extract_segments\<close>. The reply is given as the result of \<open>json.loads\<close> (\<open>None\<close> when it
  raises); the subtitle file is read from the file system, and a path that holds no
  text file raises in \<open>open\<close>. The result is the returned list (\<open>None\<close> for the failure
  \<open>return None\<close>), the file system after the run and the trace of the run.
\<close>

definition extract_segments ::
  "env \<Rightarrow> files \<Rightarrow> json option \<Rightarrow> ustr \<Rightarrow> ustr \<Rightarrow> clip list option \<times> files \<times> ev list" where
  "extract_segments env fls gpt_response subtitle_path video_url =
     (case gpt_response of
        None \<Rightarrow> (None, fls, [])
      | Some parsed \<Rightarrow>
     (case parsed of
        JArr segments \<Rightarrow>
          if segments = [] then (None, fls, [])
          else
          (case extract_video_id (e_urlparse env) (e_parse_qs env) video_url of
             None \<Rightarrow> (None, fls, [])
           | Some video_id \<Rightarrow>
          if video_id = [] then (None, fls, [])
          else
          (case fls subtitle_path of
             Some (Text file_text) \<Rightarrow>
               (let all_subtitles = splitlines file_text;
                    temp_path = temp_file video_id;
                    (downloaded, fls1, trace1) =
                      (if fls temp_path \<noteq> None then (True, fls, [])
                       else case e_download env video_id of
                              (ok, present) \<Rightarrow>
                                (ok, fls(temp_path := (if present then Some Media else None)),
                                 [EvDownload video_id]))
                in if \<not> downloaded
                   then (case unlink_if_exists temp_path (fls1, trace1) of
                           (fls2, trace2) \<Rightarrow> (None, fls2, trace2))
                   else
                     (case run_segments env video_id subtitle_path all_subtitles temp_path
                             segments [] fls1 trace1 of
                        (results, fls2, trace2) \<Rightarrow>
                          (case unlink_if_exists temp_path (fls2, trace2) of
                             (fls3, trace3) \<Rightarrow>
                               (if results = [] then None else Some results, fls3, trace3))))
           | _ \<Rightarrow> (None, fls, [])))
      | _ \<Rightarrow> (None, fls, [])))"

section \<open>Notions of the specification\<close>





text \<open>The candidate array of a reply: the reply parsed, to an array with an element.\<close>

definition reply_segments :: "json option \<Rightarrow> json list option" where
  "reply_segments gpt_response =
     (case gpt_response of
        Some (JArr segments) \<Rightarrow> if segments = [] then None else Some segments
      | _ \<Rightarrow> None)"

text \<open>
  A TimedLine with a timestamp in whole seconds, as the transcript file holds it: the
  time written by \<open>format_time\<close>, a space, the text.
\<close>

definition transcript_line :: "int \<times> ustr \<Rightarrow> ustr" where
  "transcript_line l = render_line (format_time (PInt (fst l)), snd l)"

section \<open>A concrete environment and concrete inputs\<close>

text \<open>
  An environment for evaluating the program on examples: \<open>urlparse\<close> splits two URLs
  as the standard library does and finds no host in anything else, no string is a float
  literal, the download and every write succeed, and the trim command exits with
  status 0.
\<close>

definition sample_url :: ustr where
  "sample_url = u ''https://youtu.be/abc''"

definition other_url :: ustr where
  "other_url = u ''https://example.com/watch?v=abc''"

definition sample_urlparse :: "ustr \<Rightarrow> exc + parsed_url" where
  "sample_urlparse url =
     (if url = sample_url
      then Inr \<lparr>hostname = Some (u ''youtu.be''), path = u ''/abc'', query = []\<rparr>
      else if url = other_url
      then Inr \<lparr>hostname = Some (u ''example.com''), path = u ''/watch'', query = u ''v=abc''\<rparr>
      else Inr \<lparr>hostname = None, path = url, query = []\<rparr>)"

definition sample_parse_qs :: "ustr \<Rightarrow> exc + (ustr \<times> ustr list) list" where
  "sample_parse_qs q = Inr []"

definition sample_str_float :: "ustr \<Rightarrow> pyfloat option" where
  "sample_str_float s = None"

definition sample_py_str :: "json \<Rightarrow> ustr" where
  "sample_py_str v = []"

definition sample_download :: "ustr \<Rightarrow> bool \<times> bool" where
  "sample_download video_id = (True, True)"

definition sample_trim :: "trim_cmd \<Rightarrow> int option" where
  "sample_trim cmd = Some 0"

definition sample_write_ok :: "ustr \<Rightarrow> bool" where
  "sample_write_ok p = True"

definition sample_env :: env where
  "sample_env = \<lparr>e_urlparse = sample_urlparse, e_parse_qs = sample_parse_qs,
     e_str_float = sample_str_float, e_py_str = sample_py_str, e_download = sample_download,
     e_trim = sample_trim, e_write_ok = sample_write_ok\<rparr>"

definition sample_segment :: "ustr \<Rightarrow> ustr \<Rightarrow> json" where
  "sample_segment s e =
     JObj [(u ''start'', JStr s), (u ''end'', JStr e), (u ''impact'', JInt 5),
           (u ''uniqueness'', JInt 5), (u ''timeliness'', JInt 5), (u ''entertainment'', JInt 5),
           (u ''reason'', JStr (u ''a sufficiently long reason text''))]"

definition sample_transcript_path :: ustr where
  "sample_transcript_path = u ''downloads/v_subtitles.txt''"

definition sample_files :: files where
  "sample_files = Map.empty(sample_transcript_path \<mapsto>
     Text (u ''[00:00:05] hello'' @ [10] @ u ''[00:00:10] world''))"

text \<open>
  The record that \<open>extract_segments\<close> appends for \<open>sample_segment\<close> first in the array,
  for the video \<open>abc\<close> and the transcript file above, given the canonical timecodes.
\<close>

definition sample_clip :: "ustr \<Rightarrow> ustr \<Rightarrow> clip" where
  "sample_clip st et =
     \<lparr>start_time = st, end_time = et, video_title = u ''v'',
      subtitle_file = downloads (clip_stem (u ''abc'') st et @ u ''_subtitles.txt''),
      video_file = downloads (clip_stem (u ''abc'') st et @ u ''.mp4''),
      title = JStr (default_title 0),
      impact = 5, uniqueness = 5, timeliness = 5, entertainment = 5,
      reason = u ''a sufficiently long reason text''\<rparr>"

section \<open>Time codec: formatting and parsing\<close>

lemma digit_val_ascii: "d < 10 \<Longrightarrow> digit_val (48 + d) = Some d"
  by (simp add: digit_val_def)

lemma is_digit_ascii: "d < 10 \<Longrightarrow> is_digit (48 + d)"
  by (simp add: is_digit_def digit_val_ascii)

lemma not_space_ascii_digit: "d < 10 \<Longrightarrow> \<not> is_space (48 + d)"
  by (simp add: is_space_def)

lemma dec_small: "n < 10 \<Longrightarrow> dec n = [48 + n]"
  by (subst dec.simps) simp

lemma dec_two: "10 \<le> n \<Longrightarrow> n < 100 \<Longrightarrow> dec n = [48 + n div 10, 48 + n mod 10]"
  by (subst dec.simps) (simp add: dec_small)

lemma fmt02d_two:
  "0 \<le> n \<Longrightarrow> n < 100 \<Longrightarrow> fmt02d n = [48 + nat n div 10, 48 + nat n mod 10]"
  by (cases "n < 10") (simp_all add: fmt02d_def dec_small dec_two)

lemma fmt02d_digits:
  assumes "a < 10" "b < 10"
  shows "fmt02d (int (10 * a + b)) = [48 + a, 48 + b]"
proof -
  have "(10 * a + b) div 10 = a" "(10 * a + b) mod 10 = b" using assms by simp_all
  moreover have "fmt02d (int (10 * a + b))
      = [48 + nat (int (10 * a + b)) div 10, 48 + nat (int (10 * a + b)) mod 10]"
    by (rule fmt02d_two) (use assms in simp_all)
  ultimately show ?thesis by (simp only: nat_int)
qed

lemma strip_no_space_ends:
  assumes "\<not> is_space a" "\<not> is_space b"
  shows "strip (a # mid @ [b]) = a # mid @ [b]"
  using assms by (simp add: strip_def)

lemma py_int_str_two:
  assumes "a < 10" "b < 10"
  shows "py_int_str [48 + a, 48 + b] = Some (int (10 * a + b))"
proof -
  have "strip [48 + a, 48 + b] = [48 + a, 48 + b]"
    using strip_no_space_ends [of "48 + a" "48 + b" "[]"] assms
    by (simp add: not_space_ascii_digit)
  then show ?thesis
    using assms by (simp add: py_int_str_def digit_val_ascii)
qed

lemma split_on_two_digits:
  "a < 10 \<Longrightarrow> b < 10 \<Longrightarrow>
   split_on 58 ([48 + a, 48 + b] @ 58 # rest) = [48 + a, 48 + b] # split_on 58 rest"
  by (simp split: list.splits)

lemma time_to_seconds_six:
  assumes "a < 10" "b < 10" "c < 10" "d < 10" "e < 10" "f < 10"
  shows "time_to_seconds [48 + a, 48 + b, 58, 48 + c, 48 + d, 58, 48 + e, 48 + f]
         = Some (int (10 * a + b) * 3600 + int (10 * c + d) * 60 + int (10 * e + f))"
proof -
  have "split_on 58 [48 + e, 48 + f] = [[48 + e, 48 + f]]"
    using assms by simp
  then have "split_on 58 [48 + a, 48 + b, 58, 48 + c, 48 + d, 58, 48 + e, 48 + f]
        = [[48 + a, 48 + b], [48 + c, 48 + d], [48 + e, 48 + f]]"
    using assms split_on_two_digits [of a b "[48 + c, 48 + d, 58, 48 + e, 48 + f]"]
      split_on_two_digits [of c d "[48 + e, 48 + f]"] by simp
  then show ?thesis
    by (simp only: time_to_seconds_def list.map py_int_str_two [OF assms(1,2)]
        py_int_str_two [OF assms(3,4)] py_int_str_two [OF assms(5,6)] list.case option.case)
qed

lemma time_pattern_match_six:
  assumes "a < 10" "b < 10" "c < 10" "d < 10" "e < 10" "f < 10"
  shows "time_pattern_match [48 + a, 48 + b, 58, 48 + c, 48 + d, 58, 48 + e, 48 + f]
         = Some ([48 + a, 48 + b], [48 + c, 48 + d], [48 + e, 48 + f])"
  using assms
  by (simp add: time_pattern_match_def two_digits_def match_tail_def opt_colon_def at_end_def
      is_digit_ascii)

lemma parse_timecode_six:
  assumes "a < 10" "b < 10" "c < 10" "d < 10" "e < 10" "f < 10"
  shows "parse_timecode [48 + a, 48 + b, 58, 48 + c, 48 + d, 58, 48 + e, 48 + f]
         = Some ([48 + a, 48 + b, 58, 48 + c, 48 + d, 58, 48 + e, 48 + f],
                 int (10 * a + b) * 3600 + int (10 * c + d) * 60 + int (10 * e + f))"
proof -
  have s: "strip [48 + a, 48 + b, 58, 48 + c, 48 + d, 58, 48 + e, 48 + f]
           = [48 + a, 48 + b, 58, 48 + c, 48 + d, 58, 48 + e, 48 + f]"
    using strip_no_space_ends [of "48 + a" "48 + f" "[48 + b, 58, 48 + c, 48 + d, 58, 48 + e]"]
      assms by (simp add: not_space_ascii_digit)
  show ?thesis
    by (simp only: parse_timecode_def s time_pattern_match_six [OF assms] option.case prod.case
        py_int_str_two [OF assms(1,2)] fmt02d_digits [OF assms(1,2)] Let_def append.simps
        time_to_seconds_six [OF assms])
qed

lemma format_time_int:
  assumes "\<bar>s\<bar> < 2 ^ 53"
  shows "format_time (PInt s) =
     [91] @ fmt02d (s div 3600) @ [58] @ fmt02d ((s mod 3600) div 60) @ [58] @
     fmt02d (s mod 60) @ [93]"
proof -
  have "float_of_int s = Inr (Fin (of_int s))"
    using assms by (simp add: float_of_int_def)
  moreover have "int_of_float (Fin (of_int s)) = Inr s"
    by (simp add: int_of_float_def)
  ultimately show ?thesis by (simp add: format_time_def float_of_num_def)
qed

lemma dec_100: "dec 100 = [49, 48, 48]"
  by (subst dec.simps) (simp add: dec_two)

lemma format_time_100h: "format_time (PInt 360000) = [91, 49, 48, 48, 58, 48, 48, 58, 48, 48, 93]"
proof -
  have "\<bar>360000 :: int\<bar> < 2 ^ 53" by simp
  then show ?thesis
    by (simp add: format_time_int fmt02d_def dec_100 dec_small)
qed

lemma not_digit_colon: "\<not> is_digit 58"
  by (simp add: is_digit_def digit_val_def nd_zeros_def)

text \<open>
  Claim C2, as amended. For every number of seconds \<open>s\<close> with \<open>0 \<le> s < 360000\<close> (below
  100 hours), parsing the bracket-stripped output of \<open>format_time\<close> with the timecode
  parser of \<open>extract_segments\<close> gives \<open>s\<close> again.
\<close>

theorem format_parse_roundtrip:
  assumes "0 \<le> s" "s < 360000"
  shows "map_option snd (parse_timecode (strip_brackets (format_time (PInt s)))) = Some s"
proof -
  define h where "h = nat (s div 3600)"
  define m where "m = nat ((s mod 3600) div 60)"
  define c where "c = nat (s mod 60)"
  have hb: "h < 100" and mb: "m < 60" and cb: "c < 60"
    using assms by (auto simp: h_def m_def c_def)
  have hs: "s div 3600 = int h" "(s mod 3600) div 60 = int m" "s mod 60 = int c"
    using assms by (auto simp: h_def m_def c_def)
  have fh: "fmt02d (int h) = [48 + h div 10, 48 + h mod 10]"
    using hb fmt02d_two [of "int h"] by simp
  have fm: "fmt02d (int m) = [48 + m div 10, 48 + m mod 10]"
    using mb fmt02d_two [of "int m"] by simp
  have fc: "fmt02d (int c) = [48 + c div 10, 48 + c mod 10]"
    using cb fmt02d_two [of "int c"] by simp
  have "\<bar>s\<bar> < 2 ^ 53" using assms by simp
  then have fmt: "format_time (PInt s) =
      [91, 48 + h div 10, 48 + h mod 10, 58, 48 + m div 10, 48 + m mod 10, 58,
       48 + c div 10, 48 + c mod 10, 93]"
    by (simp add: format_time_int hs fh fm fc)
  have sb: "strip_brackets (format_time (PInt s)) =
      [48 + h div 10, 48 + h mod 10, 58, 48 + m div 10, 48 + m mod 10, 58,
       48 + c div 10, 48 + c mod 10]"
    by (simp add: fmt strip_brackets_def)
  have d: "h div 10 < 10" "h mod 10 < 10" "m div 10 < 10" "m mod 10 < 10"
      "c div 10 < 10" "c mod 10 < 10"
    using hb mb cb by auto
  have "s mod 3600 mod 60 = s mod 60"
    by (rule mod_mod_cancel) simp
  then have "s mod 3600 = ((s mod 3600) div 60) * 60 + s mod 60"
    using div_mult_mod_eq [of "s mod 3600" 60] by simp
  moreover have "s = (s div 3600) * 3600 + s mod 3600"
    by (rule div_mult_mod_eq [symmetric])
  ultimately have "s = (s div 3600) * 3600 + ((s mod 3600) div 60) * 60 + s mod 60"
    by linarith
  then have "int h * 3600 + int m * 60 + int c = s"
    by (simp only: hs)
  moreover have "10 * (h div 10) + h mod 10 = h" "10 * (m div 10) + m mod 10 = m"
    "10 * (c div 10) + c mod 10 = c"
    by simp_all
  ultimately have val: "int (10 * (h div 10) + h mod 10) * 3600 +
      int (10 * (m div 10) + m mod 10) * 60 + int (10 * (c div 10) + c mod 10) = s"
    by (simp only:)
  show ?thesis
    by (simp only: sb parse_timecode_six [OF d] option.map snd_conv val)
qed

theorem format_parse_roundtrip_witness:
  "(0::int) \<le> 3725 \<and> (3725::int) < 360000 \<and>
   map_option snd (parse_timecode (strip_brackets (format_time (PInt 3725)))) = Some 3725"
  using format_parse_roundtrip [of 3725] by simp

text \<open>
  Claim C2 as stated, for every non-negative \<open>s\<close>, fails at \<open>s = 360000\<close>, the first
  value with three hour digits: \<open>format_time\<close> gives \<open>[100:00:00]\<close> and the parser
  finds no match.
\<close>

theorem format_parse_roundtrip_counterexample:
  "parse_timecode (strip_brackets (format_time (PInt 360000))) = None"
proof -
  have "strip_brackets (format_time (PInt 360000)) = [49, 48, 48, 58, 48, 48, 58, 48, 48]"
    by (simp add: format_time_100h strip_brackets_def)
  moreover have "strip [49, 48, 48, 58, 48, 48, 58, 48, 48] = [49, 48, 48, 58, 48, 48, 58, 48, 48]"
    using strip_no_space_ends [of 49 48 "[48, 48, 58, 48, 48, 58, 48]"]
    by (simp add: is_space_def)
  moreover have "time_pattern_match [49, 48, 48, 58, 48, 48, 58, 48, 48] = None"
    using is_digit_ascii [of 0] is_digit_ascii [of 1] not_digit_colon
    by (simp add: time_pattern_match_def two_digits_def match_tail_def opt_colon_def at_end_def)
  ultimately show ?thesis
    by (simp add: parse_timecode_def)
qed

section \<open>Evaluation on concrete inputs\<close>

lemma u_simps: "u [] = []" "u (c # cs) = of_char c # u cs"
  by (simp_all add: u_def)

lemma clean_zw: "clean_text [97, 32, 8203, 32, 98] = [97, 32, 32, 98]"
  by (simp add: clean_text_def strip_def remove_zero_width_def is_space_def)

lemma clean_a: "clean_text [97] = [97]"
  by (simp add: clean_text_def strip_def remove_zero_width_def is_space_def)

lemma clean_b: "clean_text [98] = [98]"
  by (simp add: clean_text_def strip_def remove_zero_width_def is_space_def)

lemma format_time_0: "format_time (PInt 0) = [91, 48, 48, 58, 48, 48, 58, 48, 48, 93]"
  by (simp add: format_time_int fmt02d_def dec_small)

lemma format_time_5: "format_time (PInt 5) = [91, 48, 48, 58, 48, 48, 58, 48, 53, 93]"
  by (simp add: format_time_int fmt02d_def dec_small)

lemma format_time_floor:
  assumes "\<lfloor>q\<rfloor> = 5"
  shows "format_time (PFloat (Fin q)) = [91, 48, 48, 58, 48, 48, 58, 48, 53, 93]"
proof -
  have "\<not> q < 0" using assms by (metis floor_less_zero not_numeral_less_zero)
  then show ?thesis
    using assms
    by (simp add: format_time_def float_of_num_def int_of_float_def fmt02d_def dec_small)
qed

lemma ytdlp_two:
  assumes "\<lfloor>q\<rfloor> = 5"
  shows "normalize_ytdlp [\<lparr>track_start = Some (PInt 5), track_text = Some [97]\<rparr>,
                    \<lparr>track_start = Some (PFloat (Fin q)), track_text = Some [98]\<rparr>]
   = [([91, 48, 48, 58, 48, 48, 58, 48, 53, 93], [97]), ([91, 48, 48, 58, 48, 48, 58, 48, 53, 93], [98])]"
  by (simp add: normalize_ytdlp_def clean_a clean_b format_time_5 format_time_floor [OF assms])

lemma api_two:
  assumes "\<lfloor>q\<rfloor> = 5"
  shows "normalize_api [\<lparr>item_start = PInt 5, item_text = [97]\<rparr>,
                  \<lparr>item_start = PFloat (Fin q), item_text = [98]\<rparr>]
   = [([91, 48, 48, 58, 48, 48, 58, 48, 53, 93], [97, 32, 98])]"
  by (simp add: normalize_api_def flush_def clean_a clean_b format_time_5 format_time_floor [OF assms])

text \<open>
  Claim C3 says that every line of the normalizer has a non-empty text without markup,
  with no run of two or more whitespace characters and no whitespace at either end.
  The program does not keep the part on whitespace runs: \<open>clean_text\<close> collapses
  whitespace (its comment says: several blanks into one) before it removes U+200B and
  U+FEFF, so a zero-width space between two blanks leaves two blanks. For the caption
  text \<open>a\<close>, blank, U+200B, blank, \<open>b\<close> the line has the text \<open>a\<close>, blank, blank, \<open>b\<close>.
\<close>

theorem clean_text_double_space:
  "normalize_api [\<lparr>item_start = PInt 0, item_text = [97, 32, 8203, 32, 98]\<rparr>]
   = [(u ''[00:00:00]'', [97, 32, 32, 98])]"
  by (simp add: normalize_api_def flush_def clean_zw format_time_0 u_simps)

text \<open>
  Claim C4 says that, for both sources, consecutive items with the same truncated-second
  timestamp are merged into one line. The loop for the transcript API source does so
  (\<open>normalize_api_merges_example\<close>); the loop for the caption-extraction source appends
  one line per item: items at seconds 5 and 5.5 give two lines with the time
  \<open>[00:00:05]\<close>.
\<close>

theorem normalize_ytdlp_no_merge:
  "normalize_ytdlp [\<lparr>track_start = Some (PInt 5), track_text = Some (u ''a'')\<rparr>,
                    \<lparr>track_start = Some (PFloat (Fin (11 / 2))), track_text = Some (u ''b'')\<rparr>]
   = [(u ''[00:00:05]'', u ''a''), (u ''[00:00:05]'', u ''b'')]"
proof -
  have "\<lfloor>11 / 2 :: rat\<rfloor> = 5" by (simp add: floor_eq_iff)
  from ytdlp_two [OF this] show ?thesis by (simp add: u_simps)
qed

lemma normalize_api_merges_example:
  "normalize_api [\<lparr>item_start = PInt 5, item_text = u ''a''\<rparr>,
                  \<lparr>item_start = PFloat (Fin (11 / 2)), item_text = u ''b''\<rparr>]
   = [(u ''[00:00:05]'', u ''a b'')]"
proof -
  have "\<lfloor>11 / 2 :: rat\<rfloor> = 5" by (simp add: floor_eq_iff)
  from api_two [OF this] show ?thesis by (simp add: u_simps)
qed

section \<open>Score normalization\<close>

lemma float_of_int_overflow: "float_of_int (2 ^ 1024) = Inl OverflowError"
proof -
  have "bitlen (1 * 2 ^ 1024) = bitlen 1 + int (1024::nat)"
    by (rule bitlen_pow2) simp
  moreover have "bitlen 1 = 1" by (simp add: bitlen_alt_def)
  ultimately have b: "bitlen (2 ^ 1024) = 1025" by simp
  have k: "nat (1025::int) - 53 = 972" by simp
  have d: "(2::int) ^ 1024 div 2 ^ 972 = 2 ^ 52"
    by (simp add: power_diff [symmetric])
  have m: "(2::int) ^ 1024 mod 2 ^ 972 = 0"
    by (simp add: le_imp_power_dvd mod_eq_0_iff_dvd)
  have p: "(2::int) ^ 52 * 2 ^ 972 = 2 ^ 1024"
    by (simp add: power_add [symmetric])
  have a: "\<bar>(2::int) ^ 1024\<bar> = 2 ^ 1024" by simp
  have n: "\<not> (2::int) ^ 1024 < 2 ^ 53" by simp
  show ?thesis
    unfolding float_of_int_def Let_def a b k d m p
    using n by simp
qed

lemma float_of_int_small: "\<bar>n\<bar> < 2 ^ 53 \<Longrightarrow> float_of_int n = Inr (Fin (of_int n))"
  by (simp add: float_of_int_def)

lemma py_round_int: "py_round (of_int n) = n"
  by (simp add: py_round_def)

lemma py_round_nearest: "\<bar>of_int (py_round q) - q\<bar> \<le> 1 / 2"
proof -
  have "of_int \<lfloor>q\<rfloor> \<le> q" "q < of_int \<lfloor>q\<rfloor> + 1" by linarith+
  then show ?thesis
    by (auto simp: py_round_def Let_def)
qed

lemma py_round_mono: "a \<le> b \<Longrightarrow> py_round a \<le> py_round b"
proof -
  assume ab: "a \<le> b"
  have fl: "\<lfloor>a\<rfloor> \<le> \<lfloor>b\<rfloor>" using ab by (rule floor_mono)
  have a1: "of_int \<lfloor>a\<rfloor> \<le> a" "a < of_int \<lfloor>a\<rfloor> + 1" by linarith+
  have b1: "of_int \<lfloor>b\<rfloor> \<le> b" "b < of_int \<lfloor>b\<rfloor> + 1" by linarith+
  show ?thesis
  proof (cases "\<lfloor>a\<rfloor> = \<lfloor>b\<rfloor>")
    case True
    then show ?thesis using ab by (auto simp: py_round_def Let_def)
  next
    case False
    then have "\<lfloor>a\<rfloor> + 1 \<le> \<lfloor>b\<rfloor>" using fl by simp
    moreover have "py_round a \<le> \<lfloor>a\<rfloor> + 1" by (auto simp: py_round_def Let_def)
    moreover have "\<lfloor>b\<rfloor> \<le> py_round b" by (auto simp: py_round_def Let_def)
    ultimately show ?thesis by linarith
  qed
qed

lemma clamp_score_range: "1 \<le> clamp_score x \<and> clamp_score x \<le> 10"
  by (cases x) (auto simp: clamp_score_def)

lemma py_round_clamp_range: "1 \<le> py_round (clamp_score x) \<and> py_round (clamp_score x) \<le> 10"
proof -
  have "py_round (of_int 1) \<le> py_round (clamp_score x)"
    by (rule py_round_mono) (use clamp_score_range [of x] in simp)
  moreover have "py_round (clamp_score x) \<le> py_round (of_int 10)"
    by (rule py_round_mono) (use clamp_score_range [of x] in simp)
  ultimately show ?thesis by (simp only: py_round_int) 
qed

lemma normalize_score_cases:
  "normalize_score sf v =
     (case py_float sf v of
        Inr x \<Rightarrow> Inr (py_round (clamp_score x))
      | Inl e \<Rightarrow> if e = OverflowError then Inl OverflowError else Inr 5) \<or>
   (\<exists>e. py_float sf v = Inl e \<and> e \<notin> {ValueError, TypeError, OverflowError})"
  by (cases "py_float sf v") (auto simp: normalize_score_def)

lemma py_float_errors: "py_float sf v = Inl e \<Longrightarrow> e \<in> {ValueError, TypeError, OverflowError}"
  by (cases v) (auto simp: py_float_def float_of_int_def Let_def split: option.splits if_splits)

lemma normalize_score_range: "normalize_score sf v = Inr r \<Longrightarrow> 1 \<le> r \<and> r \<le> 10"
  using py_round_clamp_range
  by (cases "py_float sf v") (auto simp: normalize_score_def split: if_splits)

lemma normalize_score_15: "normalize_score sf (JInt 15) = Inr 10"
proof -
  have "py_round (clamp_score (Fin (of_int 15))) = py_round (of_int 10)"
    by (simp add: clamp_score_def)
  then show ?thesis
    by (simp add: normalize_score_def py_float_def float_of_int_small py_round_int del: of_int_numeral)
qed

lemma normalize_score_0: "normalize_score sf (JInt 0) = Inr 1"
proof -
  have "py_round (clamp_score (Fin (of_int 0))) = py_round (of_int 1)"
    by (simp add: clamp_score_def)
  then show ?thesis
    by (simp add: normalize_score_def py_float_def float_of_int_small py_round_int del: of_int_0 of_int_1)
qed

lemma normalize_score_abc: "sf (u ''abc'') = None \<Longrightarrow> normalize_score sf (JStr (u ''abc'')) = Inr 5"
  by (simp add: normalize_score_def py_float_def)

lemma normalize_score_overflow: "normalize_score sf (JInt (2 ^ 1024)) = Inl OverflowError"
  unfolding normalize_score_def py_float_def json.case float_of_int_overflow by simp

lemma score_of_overflow:
  "map_of kv (u ''impact'') = Some (JInt (2 ^ 1024)) \<Longrightarrow>
   score_of sf (JObj kv) (u ''impact'') = Inl OverflowError"
  unfolding score_of_def subscript_def json.case by (simp only: option.case sum.case normalize_score_overflow)

lemma process_segment_score_error:
  assumes "normalized_scores (e_str_float env) segment = Inl e"
  shows "process_segment env vid sp subs tp n segment fls = (None, fls, [])"
  using assms by (simp add: process_segment_def split: sum.splits)

text \<open>
  Claim C9 says that each score is coerced to a number, replaced by 5 when it cannot be
  coerced, clamped into the range from 1 to 10 and rounded. For the integer \<open>2 ^ 1024\<close>,
  \<open>float\<close> raises OverflowError, which the handler for ValueError and TypeError does not
  catch: no score is produced, and the candidate is skipped as a whole. The three
  instances that the claim names are the lemmas \<open>normalize_score_abc\<close>,
  \<open>normalize_score_15\<close> and \<open>normalize_score_0\<close> above.
\<close>

theorem score_overflow_drops_segment:
  "normalize_score sf (JInt (2 ^ 1024)) = Inl OverflowError \<and>
   process_segment env vid sp subs tp n
     (JObj [(u ''start'', JStr (u ''00:00:00'')), (u ''end'', JStr (u ''00:00:15'')),
            (u ''impact'', JInt (2 ^ 1024)), (u ''uniqueness'', JInt 5),
            (u ''timeliness'', JInt 5), (u ''entertainment'', JInt 5),
            (u ''reason'', JStr (u ''a sufficiently long reason text''))]) fls
   = (None, fls, [])"
proof -
  let ?kv = "[(u ''start'', JStr (u ''00:00:00'')), (u ''end'', JStr (u ''00:00:15'')),
            (u ''impact'', JInt (2 ^ 1024)), (u ''uniqueness'', JInt 5),
            (u ''timeliness'', JInt 5), (u ''entertainment'', JInt 5),
            (u ''reason'', JStr (u ''a sufficiently long reason text''))]"
  have "map_of ?kv (u ''impact'') = Some (JInt (2 ^ 1024))"
    by (simp add: u_simps del: power_numeral)
  then have "score_of (e_str_float env) (JObj ?kv) (u ''impact'') = Inl OverflowError"
    by (rule score_of_overflow)
  then have "normalized_scores (e_str_float env) (JObj ?kv) = Inl OverflowError"
    unfolding normalized_scores_def by (simp only: sum.case)
  then have "process_segment env vid sp subs tp n (JObj ?kv) fls = (None, fls, [])"
    by (rule process_segment_score_error)
  then show ?thesis
    using normalize_score_overflow by blast
qed

text \<open>
  Claim C10. \<open>extract_video_id\<close> returns \<open>None\<close> when \<open>urlparse\<close> raises, when the host name
  is none of \<open>www.youtube.com\<close>, \<open>youtube.com\<close> and \<open>youtu.be\<close>, when the host is one of the
  first two and the path is neither \<open>/watch\<close> nor starts with \<open>/live/\<close> or \<open>/shorts/\<close>, and
  when \<open>parse_qs\<close> raises on a \<open>/watch\<close> URL. The function has the result type
  \<open>ustr option\<close> for every string: an exception inside its \<open>try\<close> is the value \<open>None\<close>.
\<close>

theorem extract_video_id_none:
  assumes "urlparse url = Inl e \<or>
     (urlparse url = Inr p \<and>
       (hostname p \<notin> {Some (u ''www.youtube.com''), Some (u ''youtube.com''), Some (u ''youtu.be'')} \<or>
        (hostname p \<in> {Some (u ''www.youtube.com''), Some (u ''youtube.com'')} \<and>
         path p \<noteq> u ''/watch'' \<and> \<not> startswith (path p) (u ''/live/'') \<and>
         \<not> startswith (path p) (u ''/shorts/'')) \<or>
        (hostname p \<in> {Some (u ''www.youtube.com''), Some (u ''youtube.com'')} \<and>
         path p = u ''/watch'' \<and> parse_qs (query p) = Inl e')))"
  shows "extract_video_id urlparse parse_qs url = None"
  using assms by (auto simp: extract_video_id_def)

text \<open>
  A URL with another host, in the concrete environment.
\<close>

theorem extract_video_id_none_witness:
  "sample_urlparse other_url =
     Inr \<lparr>hostname = Some (u ''example.com''), path = u ''/watch'', query = u ''v=abc''\<rparr> \<and>
   hostname \<lparr>hostname = Some (u ''example.com''), path = u ''/watch'', query = u ''v=abc''\<rparr>
     \<notin> {Some (u ''www.youtube.com''), Some (u ''youtube.com''), Some (u ''youtu.be'')} \<and>
   extract_video_id sample_urlparse sample_parse_qs other_url = None"
proof -
  let ?p = "\<lparr>hostname = Some (u ''example.com''), path = u ''/watch'', query = u ''v=abc''\<rparr>"
  have h: "sample_urlparse other_url = Inr ?p"
    by (simp add: sample_urlparse_def sample_url_def other_url_def u_simps)
  have n: "hostname ?p \<notin> {Some (u ''www.youtube.com''), Some (u ''youtube.com''), Some (u ''youtu.be'')}"
    by (simp add: u_simps)
  have "extract_video_id sample_urlparse sample_parse_qs other_url = None"
    by (rule extract_video_id_none [where p = "?p" and e = ValueError and e' = ValueError])
      (use h n in blast)
  with h n show ?thesis by blast
qed

section \<open>The loop over the candidate array\<close>

lemma process_segment_result_indep:
  "fst (process_segment env vid sp subs tp n seg fls) = fst (process_segment env vid sp subs tp n seg fls')"
  by (simp add: process_segment_def Let_def split: sum.splits option.splits prod.splits)



lemma run_segments_result_indep:
  "fst (run_segments env vid sp subs tp segs results fls tr) =
   fst (run_segments env vid sp subs tp segs results fls' tr')"
proof (induction segs arbitrary: results fls tr fls' tr')
  case Nil
  show ?case by simp
next
  case (Cons seg segs)
  obtain r f e where p: "process_segment env vid sp subs tp (length results) seg fls = (r, f, e)"
    by (cases "process_segment env vid sp subs tp (length results) seg fls") auto
  obtain r' f' e' where p': "process_segment env vid sp subs tp (length results) seg fls' = (r', f', e')"
    by (cases "process_segment env vid sp subs tp (length results) seg fls'") auto
  have "r = r'"
    using process_segment_result_indep [of env vid sp subs tp "length results" seg fls fls'] p p'
    by simp
  then show ?case
    using Cons.IH [of _ f "tr @ e" f' "tr' @ e'"] p p' by simp
qed


lemma all_in_obj:
  "all_in fs (JObj kv) = Inr (list_all (\<lambda>f. map_of kv f \<noteq> None) fs)"
  by (induction fs) (simp_all add: field_in_def)





lemma extract_segments_early:
  assumes "reply_segments reply = None \<or>
           extract_video_id (e_urlparse env) (e_parse_qs env) url = None \<or>
           extract_video_id (e_urlparse env) (e_parse_qs env) url = Some [] \<or>
           (\<forall>t. fls sp \<noteq> Some (Text t))"
  shows "extract_segments env fls reply sp url = (None, fls, [])"
proof (cases "reply_segments reply")
  case None
  then show ?thesis
    by (auto simp: reply_segments_def extract_segments_def
        split: option.splits json.splits if_splits)
next
  case (Some segs)
  then have r: "reply = Some (JArr segs)" "segs \<noteq> []"
    by (auto simp: reply_segments_def split: option.splits json.splits if_splits)
  from assms Some have d: "extract_video_id (e_urlparse env) (e_parse_qs env) url = None \<or>
           extract_video_id (e_urlparse env) (e_parse_qs env) url = Some [] \<or>
           (\<forall>t. fls sp \<noteq> Some (Text t))"
    by simp
  show ?thesis
  proof (cases "extract_video_id (e_urlparse env) (e_parse_qs env) url")
    case None
    then show ?thesis using r by (simp add: extract_segments_def)
  next
    case (Some vid)
    note v = this
    show ?thesis
    proof (cases "vid = []")
      case True
      then show ?thesis using r v by (simp add: extract_segments_def)
    next
      case False
      with d v have "\<forall>t. fls sp \<noteq> Some (Text t)" by simp
      then show ?thesis using r v False
        by (simp add: extract_segments_def split: option.splits content.splits)
    qed
  qed
qed

lemma extract_segments_run:
  assumes "segs \<noteq> []"
    and "extract_video_id (e_urlparse env) (e_parse_qs env) url = Some vid"
    and "vid \<noteq> []"
    and "fls sp = Some (Text ftext)"
  shows "extract_segments env fls (Some (JArr segs)) sp url =
     (if fls (temp_file vid) \<noteq> None
      then (case run_segments env vid sp (splitlines ftext) (temp_file vid) segs [] fls [] of
              (results, fls2, tr2) \<Rightarrow>
                (if results = [] then None else Some results,
                 fst (unlink_if_exists (temp_file vid) (fls2, tr2)),
                 snd (unlink_if_exists (temp_file vid) (fls2, tr2))))
      else if \<not> fst (e_download env vid)
      then (None,
            fst (unlink_if_exists (temp_file vid)
                  (fls(temp_file vid := (if snd (e_download env vid) then Some Media else None)),
                   [EvDownload vid])),
            snd (unlink_if_exists (temp_file vid)
                  (fls(temp_file vid := (if snd (e_download env vid) then Some Media else None)),
                   [EvDownload vid])))
      else (case run_segments env vid sp (splitlines ftext) (temp_file vid) segs []
                   (fls(temp_file vid := (if snd (e_download env vid) then Some Media else None)))
                   [EvDownload vid] of
              (results, fls2, tr2) \<Rightarrow>
                (if results = [] then None else Some results,
                 fst (unlink_if_exists (temp_file vid) (fls2, tr2)),
                 snd (unlink_if_exists (temp_file vid) (fls2, tr2)))))"
  using assms
  by (simp add: extract_segments_def Let_def split: prod.splits)

lemma extract_segments_fst:
  assumes "segs \<noteq> []"
    and "extract_video_id (e_urlparse env) (e_parse_qs env) url = Some vid"
    and "vid \<noteq> []"
    and "fls sp = Some (Text ftext)"
  shows "fst (extract_segments env fls (Some (JArr segs)) sp url) =
     (if fls (temp_file vid) = None \<and> \<not> fst (e_download env vid) then None
      else if fst (run_segments env vid sp (splitlines ftext) (temp_file vid) segs [] fls []) = []
      then None
      else Some (fst (run_segments env vid sp (splitlines ftext) (temp_file vid) segs [] fls [])))"
proof -
  let ?R = "fst (run_segments env vid sp (splitlines ftext) (temp_file vid) segs [] fls [])"
  let ?f1 = "fls(temp_file vid := (if snd (e_download env vid) then Some Media else None))"
  have i: "fst (run_segments env vid sp (splitlines ftext) (temp_file vid) segs [] ?f1
                 [EvDownload vid]) = ?R"
    by (rule run_segments_result_indep)
  show ?thesis
  proof (cases "fls (temp_file vid) \<noteq> None")
    case True
    then show ?thesis
      by (simp add: extract_segments_run [where fls = fls and sp = sp, OF assms] split: prod.splits)
  next
    case False
    note absent = this
    show ?thesis
    proof (cases "fst (e_download env vid)")
      case False
      then show ?thesis using absent
        by (simp add: extract_segments_run [where fls = fls and sp = sp, OF assms])
    next
      case True
      obtain r f t where x: "run_segments env vid sp (splitlines ftext) (temp_file vid) segs [] ?f1
                 [EvDownload vid] = (r, f, t)"
        by (cases "run_segments env vid sp (splitlines ftext) (temp_file vid) segs [] ?f1
                 [EvDownload vid]") auto
      then have "r = ?R" using i by simp
      then show ?thesis using absent True x
        by (simp add: extract_segments_run [where fls = fls and sp = sp, OF assms])
    qed
  qed
qed

lemma reply_segments_Some:
  "reply_segments reply = Some segs \<longleftrightarrow> reply = Some (JArr segs) \<and> segs \<noteq> []"
  by (auto simp: reply_segments_def split: option.splits json.splits if_splits)





text \<open>
  Claim C5, as amended. \<open>extract_segments\<close> returns the failure \<open>None\<close> exactly when the
  reply does not parse to a non-empty array, or no non-empty video id is extracted from
  the URL, or the subtitle file cannot be read as text, or the shared file is absent and
  its download raises, or no candidate survives the loop. When the reply does not parse
  to a non-empty array, the file system is unchanged and no external command is run.
\<close>

theorem extract_segments_failure_iff:
  "(fst (extract_segments env fls reply sp url) = None \<longleftrightarrow>
     (case reply_segments reply of
        None \<Rightarrow> True
      | Some segs \<Rightarrow>
          (case extract_video_id (e_urlparse env) (e_parse_qs env) url of
             None \<Rightarrow> True
           | Some vid \<Rightarrow>
               vid = [] \<or>
               (case fls sp of
                  Some (Text ftext) \<Rightarrow>
                    (fls (temp_file vid) = None \<and> \<not> fst (e_download env vid)) \<or>
                    fst (run_segments env vid sp (splitlines ftext) (temp_file vid) segs []
                           fls []) = []
                | _ \<Rightarrow> True)))) \<and>
   (reply_segments reply = None \<longrightarrow> extract_segments env fls reply sp url = (None, fls, []))"
proof (cases "reply_segments reply = None \<or>
           extract_video_id (e_urlparse env) (e_parse_qs env) url = None \<or>
           extract_video_id (e_urlparse env) (e_parse_qs env) url = Some [] \<or>
           (\<forall>t. fls sp \<noteq> Some (Text t))")
  case True
  then have "extract_segments env fls reply sp url = (None, fls, [])"
    by (rule extract_segments_early)
  then show ?thesis
    using True by (auto split: option.splits content.splits)
next
  case False
  then obtain segs vid ftext where s: "reply_segments reply = Some segs"
    and v: "extract_video_id (e_urlparse env) (e_parse_qs env) url = Some vid"
    and ne: "vid \<noteq> []" and f: "fls sp = Some (Text ftext)"
    by auto
  from s have r: "reply = Some (JArr segs)" "segs \<noteq> []"
    by (simp_all add: reply_segments_Some)
  show ?thesis
    using extract_segments_fst [where fls = fls and sp = sp, OF r(2) v ne f] s v ne f r(1)
    by simp
qed


section \<open>Emitted records\<close>

lemma parse_timecode_seconds:
  "parse_timecode raw = Some (t, secs) \<Longrightarrow> time_to_seconds t = Some secs"
  by (auto simp: parse_timecode_def Let_def split: option.splits prod.splits)

lemma clip_paths_differ:
  "downloads (stem @ u ''.mp4'') \<noteq> downloads (stem @ u ''_subtitles.txt'')"
  by (simp add: downloads_def u_simps)

lemma process_segment_emitted:
  assumes "process_segment env vid sp subs tp n seg fls = (Some r, fls', evs)"
  shows "\<exists>raw_s raw_e ss es.
     str_field seg (u ''start'') = Inr raw_s \<and> str_field seg (u ''end'') = Inr raw_e \<and>
     parse_timecode raw_s = Some (start_time r, ss) \<and>
     parse_timecode raw_e = Some (end_time r, es) \<and>
     fls' (subtitle_file r) =
       Some (Text (join [10] (filter_subtitles_by_time subs (start_time r) (end_time r))))"
proof -
  from assms obtain raw_s raw_e where a: "str_field seg (u ''start'') = Inr raw_s"
    "str_field seg (u ''end'') = Inr raw_e"
    by (auto simp: process_segment_def split: sum.splits if_splits)
  from assms a obtain st ss et es where b: "parse_timecode raw_s = Some (st, ss)"
    "parse_timecode raw_e = Some (et, es)"
    by (auto simp: process_segment_def split: sum.splits if_splits option.splits)
  have c: "start_time r = st \<and> end_time r = et \<and>
     subtitle_file r = downloads (clip_stem vid st et @ u ''_subtitles.txt'') \<and>
     fls' = (fls(downloads (clip_stem vid st et @ u ''_subtitles.txt'') \<mapsto>
                  Text (join [10] (filter_subtitles_by_time subs st et))))
            (downloads (clip_stem vid st et @ u ''.mp4'') \<mapsto> Media)"
    using assms a b
    by (auto simp: process_segment_def Let_def split: sum.splits if_splits option.splits)
  then have "fls' (subtitle_file r) =
       Some (Text (join [10] (filter_subtitles_by_time subs (start_time r) (end_time r))))"
    using clip_paths_differ [of "clip_stem vid st et"] by auto
  then show ?thesis
    using a b c by auto
qed

lemma run_segments_results_from:
  "run_segments env vid sp subs tp segs results fls tr = (rs, f, t) \<Longrightarrow> r \<in> set rs \<Longrightarrow>
   r \<in> set results \<or>
   (\<exists>seg \<in> set segs. \<exists>n g g' evs. process_segment env vid sp subs tp n seg g = (Some r, g', evs))"
proof (induction segs arbitrary: results fls tr)
  case Nil
  then show ?case by simp
next
  case (Cons seg segs)
  obtain r1 f1 e1 where p: "process_segment env vid sp subs tp (length results) seg fls = (r1, f1, e1)"
    by (cases "process_segment env vid sp subs tp (length results) seg fls") auto
  then have run: "run_segments env vid sp subs tp segs
               (case r1 of None \<Rightarrow> results | Some c \<Rightarrow> results @ [c]) f1 (tr @ e1) = (rs, f, t)"
    using Cons.prems(1) by simp
  from Cons.IH [OF run Cons.prems(2)]
  have "r \<in> set (case r1 of None \<Rightarrow> results | Some c \<Rightarrow> results @ [c]) \<or>
   (\<exists>seg \<in> set segs. \<exists>n g g' evs. process_segment env vid sp subs tp n seg g = (Some r, g', evs))" .
  then show ?case
  proof
    assume m: "r \<in> set (case r1 of None \<Rightarrow> results | Some c \<Rightarrow> results @ [c])"
    show ?thesis
    proof (cases r1)
      case None
      then show ?thesis using m by simp
    next
      case (Some c)
      then have "r \<in> set results \<or> r = c" using m by auto
      then show ?thesis
      proof
        assume "r \<in> set results" then show ?thesis by simp
      next
        assume "r = c"
        then have "process_segment env vid sp subs tp (length results) seg fls = (Some r, f1, e1)"
          using p Some by simp
        then show ?thesis by auto
      qed
    qed
  next
    assume "\<exists>seg \<in> set segs. \<exists>n g g' evs. process_segment env vid sp subs tp n seg g = (Some r, g', evs)"
    then show ?thesis by auto
  qed
qed

text \<open>
  Claim C1, as amended. Every record that \<open>extract_segments\<close> returns comes from a
  candidate of the array whose start and end are strings that the timecode parser
  accepts; \<open>start_time\<close> and \<open>end_time\<close> of the record are their canonical forms, and
  \<open>time_to_seconds\<close> gives their seconds (\<open>start_seconds\<close> and \<open>end_seconds\<close>).
\<close>

theorem emitted_record_timecodes:
  assumes "fst (extract_segments env fls (Some (JArr segs)) sp url) = Some results"
    and "r \<in> set results"
  shows "\<exists>seg \<in> set segs. \<exists>raw_s raw_e ss es.
     str_field seg (u ''start'') = Inr raw_s \<and> str_field seg (u ''end'') = Inr raw_e \<and>
     parse_timecode raw_s = Some (start_time r, ss) \<and>
     parse_timecode raw_e = Some (end_time r, es) \<and>
     time_to_seconds (start_time r) = Some ss \<and> time_to_seconds (end_time r) = Some es"
proof -
  have ne: "\<not> (reply_segments (Some (JArr segs)) = None \<or>
           extract_video_id (e_urlparse env) (e_parse_qs env) url = None \<or>
           extract_video_id (e_urlparse env) (e_parse_qs env) url = Some [] \<or>
           (\<forall>t. fls sp \<noteq> Some (Text t)))"
  proof
    assume "reply_segments (Some (JArr segs)) = None \<or>
           extract_video_id (e_urlparse env) (e_parse_qs env) url = None \<or>
           extract_video_id (e_urlparse env) (e_parse_qs env) url = Some [] \<or>
           (\<forall>t. fls sp \<noteq> Some (Text t))"
    then have "extract_segments env fls (Some (JArr segs)) sp url = (None, fls, [])"
      by (rule extract_segments_early)
    then show False using assms(1) by simp
  qed
  then obtain vid ftext where s: "segs \<noteq> []"
    and v: "extract_video_id (e_urlparse env) (e_parse_qs env) url = Some vid"
    and nv: "vid \<noteq> []" and f: "fls sp = Some (Text ftext)"
    by (auto simp: reply_segments_Some)
  let ?run = "run_segments env vid sp (splitlines ftext) (temp_file vid) segs [] fls []"
  have "results = fst ?run"
    using assms(1) extract_segments_fst [where fls = fls and sp = sp, OF s v nv f]
    by (simp split: if_splits)
  then obtain f2 t2 where x: "?run = (results, f2, t2)"
    by (cases ?run) auto
  from run_segments_results_from [OF x assms(2)]
  obtain seg n g g' evs where m: "seg \<in> set segs"
    and p: "process_segment env vid sp (splitlines ftext) (temp_file vid) n seg g = (Some r, g', evs)"
    by auto
  from process_segment_emitted [OF p] obtain raw_s raw_e ss es where
    e: "str_field seg (u ''start'') = Inr raw_s" "str_field seg (u ''end'') = Inr raw_e"
     "parse_timecode raw_s = Some (start_time r, ss)"
     "parse_timecode raw_e = Some (end_time r, es)"
    by blast
  have "time_to_seconds (start_time r) = Some ss" "time_to_seconds (end_time r) = Some es"
    using e(3,4) by (auto dest: parse_timecode_seconds)
  with m e show ?thesis by blast
qed

section \<open>Subtitle excerpts of a transcript\<close>

lemma format_time_shape:
  assumes "0 \<le> s" "s < 360000"
  shows "\<exists>a b c d e f. a < 10 \<and> b < 10 \<and> c < 10 \<and> d < 10 \<and> e < 10 \<and> f < 10 \<and>
     format_time (PInt s) =
       [91, 48 + a, 48 + b, 58, 48 + c, 48 + d, 58, 48 + e, 48 + f, 93] \<and>
     int (10 * a + b) * 3600 + int (10 * c + d) * 60 + int (10 * e + f) = s"
proof -
  define h where "h = nat (s div 3600)"
  define m where "m = nat ((s mod 3600) div 60)"
  define c where "c = nat (s mod 60)"
  have hb: "h < 100" and mb: "m < 60" and cb: "c < 60"
    using assms by (auto simp: h_def m_def c_def)
  have hs: "s div 3600 = int h" "(s mod 3600) div 60 = int m" "s mod 60 = int c"
    using assms by (auto simp: h_def m_def c_def)
  have fh: "fmt02d (int h) = [48 + h div 10, 48 + h mod 10]"
    using hb fmt02d_two [of "int h"] by simp
  have fm: "fmt02d (int m) = [48 + m div 10, 48 + m mod 10]"
    using mb fmt02d_two [of "int m"] by simp
  have fc: "fmt02d (int c) = [48 + c div 10, 48 + c mod 10]"
    using cb fmt02d_two [of "int c"] by simp
  have "\<bar>s\<bar> < 2 ^ 53" using assms by simp
  then have fmt: "format_time (PInt s) =
      [91, 48 + h div 10, 48 + h mod 10, 58, 48 + m div 10, 48 + m mod 10, 58,
       48 + c div 10, 48 + c mod 10, 93]"
    by (simp add: format_time_int hs fh fm fc)
  have d: "h div 10 < 10" "h mod 10 < 10" "m div 10 < 10" "m mod 10 < 10"
      "c div 10 < 10" "c mod 10 < 10"
    using hb mb cb by auto
  have "s mod 3600 mod 60 = s mod 60"
    by (rule mod_mod_cancel) simp
  then have "s mod 3600 = ((s mod 3600) div 60) * 60 + s mod 60"
    using div_mult_mod_eq [of "s mod 3600" 60] by simp
  moreover have "s = (s div 3600) * 3600 + s mod 3600"
    by (rule div_mult_mod_eq [symmetric])
  ultimately have "s = (s div 3600) * 3600 + ((s mod 3600) div 60) * 60 + s mod 60"
    by linarith
  then have "int h * 3600 + int m * 60 + int c = s"
    by (simp only: hs)
  moreover have "10 * (h div 10) + h mod 10 = h" "10 * (m div 10) + m mod 10 = m"
    "10 * (c div 10) + c mod 10 = c"
    by simp_all
  ultimately have val: "int (10 * (h div 10) + h mod 10) * 3600 +
      int (10 * (m div 10) + m mod 10) * 60 + int (10 * (c div 10) + c mod 10) = s"
    by (simp only:)
  show ?thesis
    using d fmt val by blast
qed

lemma strip_nonempty: "\<not> is_space c \<Longrightarrow> strip (c # cs) \<noteq> []"
  by (simp add: strip_def dropWhile_append)

lemma transcript_line_seconds:
  assumes "0 \<le> fst l" "fst l < 360000"
  shows "strip (transcript_line l) \<noteq> [] \<and>
         (\<exists>t. line_match (transcript_line l) = Some t \<and> time_to_seconds t = Some (fst l))"
proof -
  from format_time_shape [OF assms] obtain a b c d e f where
    d: "a < 10" "b < 10" "c < 10" "d < 10" "e < 10" "f < 10"
    and fmt: "format_time (PInt (fst l)) =
       [91, 48 + a, 48 + b, 58, 48 + c, 48 + d, 58, 48 + e, 48 + f, 93]"
    and val: "int (10 * a + b) * 3600 + int (10 * c + d) * 60 + int (10 * e + f) = fst l"
    by blast
  have tl: "transcript_line l =
      [91, 48 + a, 48 + b, 58, 48 + c, 48 + d, 58, 48 + e, 48 + f, 93, 32] @ snd l"
    by (simp add: transcript_line_def render_line_def fmt)
  have "\<not> is_space 91" by (simp add: is_space_def)
  then have s: "strip (transcript_line l) \<noteq> []"
    unfolding tl using strip_nonempty [of 91] by simp
  have "line_match (transcript_line l) =
      Some [48 + a, 48 + b, 58, 48 + c, 48 + d, 58, 48 + e, 48 + f]"
    unfolding tl using d by (simp add: line_match_def is_digit_ascii)
  moreover have "time_to_seconds [48 + a, 48 + b, 58, 48 + c, 48 + d, 58, 48 + e, 48 + f]
      = Some (fst l)"
    using time_to_seconds_six [OF d] val by simp
  ultimately show ?thesis using s by simp
qed

lemma filter_loop_transcript:
  assumes "\<forall>l \<in> set lines. 0 \<le> fst l \<and> fst l < 360000"
  shows "filter_loop (map transcript_line lines) s e acc =
         Some (acc @ map transcript_line (filter (\<lambda>l. s \<le> fst l \<and> fst l \<le> e) lines))"
  using assms
proof (induction lines arbitrary: acc)
  case Nil
  show ?case by simp
next
  case (Cons l lines)
  then have b: "0 \<le> fst l" "fst l < 360000" by simp_all
  from transcript_line_seconds [OF b] obtain t where
    t: "strip (transcript_line l) \<noteq> []" "line_match (transcript_line l) = Some t"
      "time_to_seconds t = Some (fst l)"
    by blast
  have ih: "\<And>acc. filter_loop (map transcript_line lines) s e acc =
         Some (acc @ map transcript_line (filter (\<lambda>l. s \<le> fst l \<and> fst l \<le> e) lines))"
    using Cons by simp
  show ?case
    using t by (simp add: ih)
qed

lemma filter_subtitles_transcript:
  assumes "\<forall>l \<in> set lines. 0 \<le> fst l \<and> fst l < 360000"
    and "time_to_seconds start_t = Some s" and "time_to_seconds end_t = Some e"
  shows "filter_subtitles_by_time (map transcript_line lines) start_t end_t =
         map transcript_line (filter (\<lambda>l. s \<le> fst l \<and> fst l \<le> e) lines)"
  using assms(2,3) filter_loop_transcript [OF assms(1), of s e "[]"]
  by (simp add: filter_subtitles_by_time_def)

text \<open>
  Claim C8, as amended. For a transcript whose timestamps \<open>t\<close> satisfy \<open>0 \<le> t < 360000\<close>
  (below 100 hours) and every candidate for which a record is emitted, the excerpt file
  written for the candidate holds exactly the transcript lines whose timestamp lies in
  the closed interval from \<open>start_seconds\<close> to \<open>end_seconds\<close>, in transcript order, joined
  by newlines.
\<close>

theorem excerpt_holds_interval_lines:
  assumes "process_segment env vid sp (map transcript_line lines) tp n seg fls = (Some r, fls', evs)"
    and "\<forall>l \<in> set lines. 0 \<le> fst l \<and> fst l < 360000"
  shows "\<exists>ss es. time_to_seconds (start_time r) = Some ss \<and>
     time_to_seconds (end_time r) = Some es \<and>
     fls' (subtitle_file r) =
       Some (Text (join [10]
         (map transcript_line (filter (\<lambda>l. ss \<le> fst l \<and> fst l \<le> es) lines))))"
proof -
  from process_segment_emitted [OF assms(1)] obtain raw_s raw_e ss es where
    e: "parse_timecode raw_s = Some (start_time r, ss)"
       "parse_timecode raw_e = Some (end_time r, es)"
       "fls' (subtitle_file r) = Some (Text (join [10]
          (filter_subtitles_by_time (map transcript_line lines) (start_time r) (end_time r))))"
    by blast
  have t: "time_to_seconds (start_time r) = Some ss" "time_to_seconds (end_time r) = Some es"
    using e(1,2) by (auto dest: parse_timecode_seconds)
  show ?thesis
    using t e(3) filter_subtitles_transcript [OF assms(2) t] by simp
qed

section \<open>Runs in the concrete environment\<close>

lemma normalize_score_5: "normalize_score sf (JInt 5) = Inr 5"
proof -
  have "py_round (clamp_score (Fin (of_int 5))) = py_round (of_int 5)"
    by (simp add: clamp_score_def)
  then show ?thesis
    by (simp add: normalize_score_def py_float_def float_of_int_small py_round_int del: of_int_numeral)
qed

lemma sample_scores:
  "normalized_scores sf (sample_segment s e) = Inr (5, 5, 5, 5)"
  by (simp add: normalized_scores_def score_of_def subscript_def sample_segment_def u_simps
      normalize_score_5)

lemma sample_required: "all_in required_fields (sample_segment s e) = Inr True"
  by (simp add: sample_segment_def all_in_obj required_fields_def u_simps)

lemma sample_fields:
  "str_field (sample_segment s e) (u ''start'') = Inr s"
  "str_field (sample_segment s e) (u ''end'') = Inr e"
  "get_title (sample_segment s e) n = Inr (JStr (default_title n))"
  "subscript (sample_segment s e) (u ''reason'') = Inr (JStr (u ''a sufficiently long reason text''))"
  by (simp_all add: str_field_def subscript_def get_title_def sample_segment_def u_simps)

lemma sample_reason:
  "reason_text ps (JStr (u ''a sufficiently long reason text'')) = u ''a sufficiently long reason text''"
  by (simp add: reason_text_def py_str_def u_simps strip_def is_space_def)

lemma sample_video_title:
  "remove_sub (u ''_subtitles.txt'') (basename sample_transcript_path) = u ''v''"
  by (simp add: basename_def sample_transcript_path_def u_simps startswith_def)

lemma process_sample_segment:
  assumes "parse_timecode s = Some (st, ss)" "parse_timecode e = Some (et, es)"
  shows "process_segment sample_env (u ''abc'') sample_transcript_path subs tp 0
           (sample_segment s e) fls =
     (Some (sample_clip st et),
      (fls(downloads (clip_stem (u ''abc'') st et @ u ''_subtitles.txt'') \<mapsto>
             Text (join [10] (filter_subtitles_by_time subs st et))))
          (downloads (clip_stem (u ''abc'') st et @ u ''.mp4'') \<mapsto> Media),
      [EvWrite (downloads (clip_stem (u ''abc'') st et @ u ''_subtitles.txt'')),
       EvTrim \<lparr>cmd_input = tp, cmd_ss = ss, cmd_t = es - ss,
               cmd_output = downloads (clip_stem (u ''abc'') st et @ u ''.mp4'')\<rparr>])"
  by (simp add: process_segment_def sample_required sample_scores sample_fields assms Let_def
      sample_env_def sample_write_ok_def sample_trim_def sample_reason sample_video_title
      sample_clip_def)

lemma parse_00_00_00: "parse_timecode (u ''00:00:00'') = Some (u ''00:00:00'', 0)"
  using parse_timecode_six [of 0 0 0 0 0 0] by (simp add: u_simps)

lemma parse_00_00_15: "parse_timecode (u ''00:00:15'') = Some (u ''00:00:15'', 15)"
  using parse_timecode_six [of 0 0 0 0 1 5] by (simp add: u_simps)

lemma parse_00_00_10: "parse_timecode (u ''00:00:10'') = Some (u ''00:00:10'', 10)"
  using parse_timecode_six [of 0 0 0 0 1 0] by (simp add: u_simps)

lemma parse_00_00_05: "parse_timecode (u ''00:00:05'') = Some (u ''00:00:05'', 5)"
  using parse_timecode_six [of 0 0 0 0 0 5] by (simp add: u_simps)

lemma parse_99_99_99: "parse_timecode (u ''99:99:99'') = Some (u ''99:99:99'', 362439)"
  using parse_timecode_six [of 9 9 9 9 9 9] by (simp add: u_simps)

lemma sample_video_id:
  "extract_video_id (e_urlparse sample_env) (e_parse_qs sample_env) sample_url = Some (u ''abc'')"
  by (simp add: extract_video_id_def sample_env_def sample_urlparse_def u_simps)

lemma sample_bad_url:
  "extract_video_id (e_urlparse sample_env) (e_parse_qs sample_env) (u ''not a url'') = None"
  by (simp add: extract_video_id_def sample_env_def sample_urlparse_def sample_url_def
      other_url_def u_simps)

lemma sample_files_transcript:
  "sample_files sample_transcript_path =
     Some (Text (u ''[00:00:05] hello'' @ [10] @ u ''[00:00:10] world''))"
  by (simp add: sample_files_def)

lemma sample_files_no_temp: "sample_files (temp_file (u ''abc'')) = None"
  by (simp add: sample_files_def sample_transcript_path_def temp_file_def downloads_def u_simps)

lemma sample_run:
  assumes "parse_timecode s = Some (st, ss)" "parse_timecode e = Some (et, es)"
  shows "fst (extract_segments sample_env sample_files (Some (JArr [sample_segment s e]))
                sample_transcript_path sample_url) = Some [sample_clip st et]"
proof -
  have d: "fst (e_download sample_env (u ''abc''))"
    by (simp add: sample_env_def sample_download_def)
  have n: "u ''abc'' \<noteq> []" by (simp add: u_simps)
  have s: "[sample_segment s e] \<noteq> []" by simp
  show ?thesis
    using d by (simp add: extract_segments_fst [where fls = sample_files
          and sp = sample_transcript_path, OF s sample_video_id n sample_files_transcript]
        process_sample_segment [OF assms])
qed

text \<open>
  The second end-to-end scenario of the specification: one candidate from \<open>00:00:00\<close> to
  \<open>00:00:15\<close>.
\<close>

theorem emitted_record_timecodes_witness:
  "fst (extract_segments sample_env sample_files
          (Some (JArr [sample_segment (u ''00:00:00'') (u ''00:00:15'')]))
          sample_transcript_path sample_url)
     = Some [sample_clip (u ''00:00:00'') (u ''00:00:15'')] \<and>
   sample_clip (u ''00:00:00'') (u ''00:00:15'')
     \<in> set [sample_clip (u ''00:00:00'') (u ''00:00:15'')] \<and>
   (\<exists>seg \<in> set [sample_segment (u ''00:00:00'') (u ''00:00:15'')]. \<exists>raw_s raw_e ss es.
     str_field seg (u ''start'') = Inr raw_s \<and> str_field seg (u ''end'') = Inr raw_e \<and>
     parse_timecode raw_s = Some (start_time (sample_clip (u ''00:00:00'') (u ''00:00:15'')), ss) \<and>
     parse_timecode raw_e = Some (end_time (sample_clip (u ''00:00:00'') (u ''00:00:15'')), es) \<and>
     time_to_seconds (start_time (sample_clip (u ''00:00:00'') (u ''00:00:15''))) = Some ss \<and>
     time_to_seconds (end_time (sample_clip (u ''00:00:00'') (u ''00:00:15''))) = Some es)"
proof -
  have a: "fst (extract_segments sample_env sample_files
          (Some (JArr [sample_segment (u ''00:00:00'') (u ''00:00:15'')]))
          sample_transcript_path sample_url)
     = Some [sample_clip (u ''00:00:00'') (u ''00:00:15'')]"
    by (rule sample_run [OF parse_00_00_00 parse_00_00_15])
  have b: "sample_clip (u ''00:00:00'') (u ''00:00:15'')
     \<in> set [sample_clip (u ''00:00:00'') (u ''00:00:15'')]"
    by simp
  from emitted_record_timecodes [OF a b] a b show ?thesis by blast
qed

text \<open>
  Claim C1 as stated fails: a candidate with the start \<open>00:00:10\<close> and the end \<open>00:00:05\<close>,
  and one whose start and end are both \<open>00:00:10\<close>, are emitted when the trim command
  exits with status 0.
\<close>

theorem start_not_before_end_emitted:
  "map_option (map start_time)
     (fst (extract_segments sample_env sample_files
             (Some (JArr [sample_segment (u ''00:00:10'') (u ''00:00:05'')]))
             sample_transcript_path sample_url)) = Some [u ''00:00:10''] \<and>
   map_option (map end_time)
     (fst (extract_segments sample_env sample_files
             (Some (JArr [sample_segment (u ''00:00:10'') (u ''00:00:05'')]))
             sample_transcript_path sample_url)) = Some [u ''00:00:05''] \<and>
   map_option (map start_time)
     (fst (extract_segments sample_env sample_files
             (Some (JArr [sample_segment (u ''00:00:10'') (u ''00:00:10'')]))
             sample_transcript_path sample_url)) = Some [u ''00:00:10''] \<and>
   map_option (map end_time)
     (fst (extract_segments sample_env sample_files
             (Some (JArr [sample_segment (u ''00:00:10'') (u ''00:00:10'')]))
             sample_transcript_path sample_url)) = Some [u ''00:00:10''] \<and>
   time_to_seconds (u ''00:00:10'') = Some 10 \<and> time_to_seconds (u ''00:00:05'') = Some 5"
  using sample_run [OF parse_00_00_10 parse_00_00_05] sample_run [OF parse_00_00_10 parse_00_00_10]
    parse_timecode_seconds [OF parse_00_00_10] parse_timecode_seconds [OF parse_00_00_05]
  by (simp add: sample_clip_def)

text \<open>
  A reply that is not JSON: the failure, and the file system as it was.
\<close>

theorem extract_segments_failure_iff_witness:
  "reply_segments None = None \<and>
   extract_segments sample_env sample_files None sample_transcript_path sample_url
     = (None, sample_files, [])"
proof -
  have "reply_segments None = None" by (simp add: reply_segments_def)
  then show ?thesis
    using extract_segments_failure_iff [of sample_env sample_files None sample_transcript_path
        sample_url]
    by simp
qed

text \<open>
  Claim C5 as stated fails: a reply that parses to a one-element array whose candidate
  survives the loop gives the failure when the video URL has no video id.
\<close>

theorem failure_from_bad_url:
  "reply_segments (Some (JArr [sample_segment (u ''00:00:00'') (u ''00:00:15'')])) =
     Some [sample_segment (u ''00:00:00'') (u ''00:00:15'')] \<and>
   fst (extract_segments sample_env sample_files
          (Some (JArr [sample_segment (u ''00:00:00'') (u ''00:00:15'')]))
          sample_transcript_path sample_url)
     = Some [sample_clip (u ''00:00:00'') (u ''00:00:15'')] \<and>
   extract_segments sample_env sample_files
          (Some (JArr [sample_segment (u ''00:00:00'') (u ''00:00:15'')]))
          sample_transcript_path (u ''not a url'')
     = (None, sample_files, [])"
  using sample_run [OF parse_00_00_00 parse_00_00_15]
    extract_segments_early [of "Some (JArr [sample_segment (u ''00:00:00'') (u ''00:00:15'')])"
      sample_env "u ''not a url''" sample_files sample_transcript_path] sample_bad_url
  by (simp add: reply_segments_def)




lemma sample_lines_bound:
  "\<forall>l \<in> set [(5, u ''hello''), (10, u ''world'')]. (0::int) \<le> fst l \<and> fst l < 360000"
  by simp

text \<open>
  The transcript of the end-to-end scenario: both lines lie between \<open>00:00:00\<close> and
  \<open>00:00:15\<close>.
\<close>

theorem excerpt_holds_interval_lines_witness:
  "process_segment sample_env (u ''abc'') sample_transcript_path
       (map transcript_line [(5, u ''hello''), (10, u ''world'')]) (temp_file (u ''abc'')) 0
       (sample_segment (u ''00:00:00'') (u ''00:00:15'')) sample_files =
     (Some (sample_clip (u ''00:00:00'') (u ''00:00:15'')),
      fst (snd (process_segment sample_env (u ''abc'') sample_transcript_path
       (map transcript_line [(5, u ''hello''), (10, u ''world'')]) (temp_file (u ''abc'')) 0
       (sample_segment (u ''00:00:00'') (u ''00:00:15'')) sample_files)),
      snd (snd (process_segment sample_env (u ''abc'') sample_transcript_path
       (map transcript_line [(5, u ''hello''), (10, u ''world'')]) (temp_file (u ''abc'')) 0
       (sample_segment (u ''00:00:00'') (u ''00:00:15'')) sample_files))) \<and>
   (\<exists>ss es. time_to_seconds (start_time (sample_clip (u ''00:00:00'') (u ''00:00:15''))) = Some ss \<and>
     time_to_seconds (end_time (sample_clip (u ''00:00:00'') (u ''00:00:15''))) = Some es \<and>
     fst (snd (process_segment sample_env (u ''abc'') sample_transcript_path
       (map transcript_line [(5, u ''hello''), (10, u ''world'')]) (temp_file (u ''abc'')) 0
       (sample_segment (u ''00:00:00'') (u ''00:00:15'')) sample_files))
       (subtitle_file (sample_clip (u ''00:00:00'') (u ''00:00:15''))) =
       Some (Text (join [10]
         (map transcript_line (filter (\<lambda>l. ss \<le> fst l \<and> fst l \<le> es)
            [(5, u ''hello''), (10, u ''world'')])))))"
proof -
  let ?P = "process_segment sample_env (u ''abc'') sample_transcript_path
       (map transcript_line [(5, u ''hello''), (10, u ''world'')]) (temp_file (u ''abc'')) 0
       (sample_segment (u ''00:00:00'') (u ''00:00:15'')) sample_files"
  have a: "?P = (Some (sample_clip (u ''00:00:00'') (u ''00:00:15'')), fst (snd ?P), snd (snd ?P))"
    by (simp add: process_sample_segment [OF parse_00_00_00 parse_00_00_15])
  from excerpt_holds_interval_lines [OF a sample_lines_bound] a show ?thesis by blast
qed

lemma transcript_line_100h:
  "transcript_line (360000, u ''x'') = [91, 49, 48, 48, 58, 48, 48, 58, 48, 48, 93, 32, 120]"
  by (simp add: transcript_line_def render_line_def format_time_100h u_simps)

lemma filter_100h:
  "filter_subtitles_by_time [transcript_line (360000, u ''x'')] (u ''00:00:00'') (u ''99:99:99'') = []"
proof -
  have "strip [91, 49, 48, 48, 58, 48, 48, 58, 48, 48, 93, 32, 120] \<noteq> []"
    using strip_nonempty [of 91] by (simp add: is_space_def)
  moreover have "line_match [91, 49, 48, 48, 58, 48, 48, 58, 48, 48, 93, 32, 120] = None"
    by (simp add: line_match_def)
  ultimately show ?thesis
    using parse_timecode_seconds [OF parse_00_00_00] parse_timecode_seconds [OF parse_99_99_99]
    by (simp add: filter_subtitles_by_time_def transcript_line_100h)
qed

text \<open>
  Claim C8 as stated fails: a transcript line at 100 hours is written as \<open>[100:00:00]\<close>,
  which the pattern of \<open>filter_subtitles_by_time\<close> (two digits per field) does not match.
  For a candidate from \<open>00:00:00\<close> to \<open>99:99:99\<close> (362439 seconds) the excerpt is empty,
  although 360000 lies in the interval.
\<close>

theorem line_at_100_hours_left_out:
  "fst (process_segment sample_env (u ''abc'') sample_transcript_path
       [transcript_line (360000, u ''x'')] (temp_file (u ''abc'')) 0
       (sample_segment (u ''00:00:00'') (u ''99:99:99'')) sample_files)
     = Some (sample_clip (u ''00:00:00'') (u ''99:99:99'')) \<and>
   time_to_seconds (start_time (sample_clip (u ''00:00:00'') (u ''99:99:99''))) = Some 0 \<and>
   time_to_seconds (end_time (sample_clip (u ''00:00:00'') (u ''99:99:99''))) = Some 362439 \<and>
   fst (snd (process_segment sample_env (u ''abc'') sample_transcript_path
       [transcript_line (360000, u ''x'')] (temp_file (u ''abc'')) 0
       (sample_segment (u ''00:00:00'') (u ''99:99:99'')) sample_files))
     (subtitle_file (sample_clip (u ''00:00:00'') (u ''99:99:99''))) = Some (Text [])"
proof -
  have "downloads (clip_stem (u ''abc'') (u ''00:00:00'') (u ''99:99:99'') @ u ''.mp4'') \<noteq>
        downloads (clip_stem (u ''abc'') (u ''00:00:00'') (u ''99:99:99'') @ u ''_subtitles.txt'')"
    by (rule clip_paths_differ)
  then show ?thesis
    using parse_timecode_seconds [OF parse_00_00_00] parse_timecode_seconds [OF parse_99_99_99]
    by (simp add: process_sample_segment [OF parse_00_00_00 parse_99_99_99] filter_100h
        sample_clip_def)
qed


end
